theory Spec2Isabelle
  imports Complex_Main "HOL-Library.Word"
begin

section \<open>The data parser of js-digit-recognition\<close>

text \<open>
  A shallow embedding of the class \<open>DataParser\<close>. A JavaScript \<open>number\<close> is modelled
  by an exact rational: the only division of the source is by \<open>IMAGE_SIZE = 16\<close>, a power
  of two, and every other value is an integer far below \<open>2 ^ 53\<close> for any image a JPEG
  file can hold, so the double-precision arithmetic of the source is exact on them.
  Loop counters, which start at 0 and are incremented by 1, are natural numbers.
\<close>

type_synonym number = rat

subsection \<open>Constants\<close>

definition IMAGE_PATH_FORMAT :: string where
  "IMAGE_PATH_FORMAT = ''raw_data/usps_{DIGIT}.jpg''"

definition IMAGE_SIZE :: nat where
  "IMAGE_SIZE = 16"

definition RGB_THRESHOLD :: nat where
  "RGB_THRESHOLD = 60"

definition PIXEL_THRESHOLD :: nat where
  "PIXEL_THRESHOLD = 30"

definition DATA_SET_SIZE :: nat where
  "DATA_SET_SIZE = 1100"

definition TRAINING_SET_SIZE :: nat where
  "TRAINING_SET_SIZE = 550"

subsection \<open>Interfaces\<close>

record IDigitMatrix =
  digit :: int
  matrix :: "nat list"

record IDigitDataSet =
  trainingSet :: "IDigitMatrix list"
  testingSet :: "IDigitMatrix list"

text \<open>\<open>IImageData\<close>: the \<open>data\<close> field is a \<open>Uint8Array\<close>.\<close>

record IImageData =
  height :: nat
  width :: nat
  data :: "8 word list"

text \<open>
  The errors the source throws. Each is an \<open>Error\<close> with a message; the constructors
  keep what the message is built from.
\<close>

datatype error =
    CouldNotFindImage string
  | DecodeException
  | CouldNotLoadImageData
  | LessImagesThanExpected number

subsection \<open>The counting loop\<close>

text \<open>
  \<open>for (let i = i0; i < n; i++) body\<close>, with the bound a \<open>number\<close>. The body maps the
  counter and the variables the loop updates to their new values.
\<close>

function forLoop :: "nat \<Rightarrow> number \<Rightarrow> (nat \<Rightarrow> 's \<Rightarrow> 's) \<Rightarrow> 's \<Rightarrow> 's" where
  "forLoop i n body st = (if of_nat i < n then forLoop (i + 1) n body (body i st) else st)"
  by pat_completeness auto
termination
proof (relation "measure (\<lambda>(i, n, body, st). nat \<lceil>n\<rceil> - i)")
  show "wf (measure (\<lambda>(i, n, body, st). nat \<lceil>n\<rceil> - i))"
    by simp
next
  fix i :: nat and n :: number and body :: "nat \<Rightarrow> 's \<Rightarrow> 's" and st :: 's
  assume "of_nat i < n"
  then have "int i < \<lceil>n\<rceil>"
    by (simp add: less_ceiling_iff)
  then show "((i + 1, n, body, body i st), (i, n, body, st))
      \<in> measure (\<lambda>(i, n, body, st). nat \<lceil>n\<rceil> - i)"
    by simp
qed

declare forLoop.simps [simp del]

subsection \<open>coordinatesToIndex and subImage\<close>

definition coordinatesToIndex :: "number \<Rightarrow> number \<Rightarrow> number \<Rightarrow> number" where
  "coordinatesToIndex x y columns = y - 1 + x * columns * of_nat IMAGE_SIZE"

text \<open>
  Reading a \<open>Uint8Array\<close> at a \<open>number\<close>: the element when the number is an integer
  index inside the array, \<open>undefined\<close> (here \<open>None\<close>) at any other number; it never
  throws.
\<close>

definition uint8Get :: "8 word list \<Rightarrow> number \<Rightarrow> 8 word option" where
  "uint8Get a i =
     (if of_int \<lfloor>i\<rfloor> = i \<and> 0 \<le> i \<and> \<lfloor>i\<rfloor> < int (length a)
      then Some (a ! nat \<lfloor>i\<rfloor>) else None)"

text \<open>\<open>v > t\<close> for a value read from the array: \<open>undefined > t\<close> is false.\<close>

definition jsGreater :: "8 word option \<Rightarrow> nat \<Rightarrow> bool" where
  "jsGreater v t = (case v of None \<Rightarrow> False | Some b \<Rightarrow> t < unat b)"

text \<open>
  \<open>a[i] = v\<close> on a JavaScript array, for \<open>i\<close> up to the length of the array: an element
  is overwritten, and writing at the length appends. (The source never writes further.)
\<close>

definition arraySet :: "'a list \<Rightarrow> nat \<Rightarrow> 'a \<Rightarrow> 'a list" where
  "arraySet a i v = (if i < length a then a[i := v] else a @ [v])"

text \<open>The local variables of \<open>subImage\<close>.\<close>

record subImageVars =
  subImageArray :: "nat list"
  index :: nat
  whitePixelCount :: nat

text \<open>The body of the inner loop of \<open>subImage\<close>.\<close>

definition subImagePixel ::
  "number \<Rightarrow> number \<Rightarrow> number \<Rightarrow> 8 word list \<Rightarrow> nat \<Rightarrow> nat \<Rightarrow> subImageVars \<Rightarrow> subImageVars" where
  "subImagePixel startX startY columns imageData row column st =
     (let imageDataIndex =
            coordinatesToIndex (of_nat row + startX) (of_nat column + startY) (columns - 1);
          st1 = st\<lparr>subImageArray := arraySet (subImageArray st) (index st) 0\<rparr>;
          st2 = (if jsGreater (uint8Get imageData (imageDataIndex * 4)) RGB_THRESHOLD
                 then st1\<lparr>subImageArray := arraySet (subImageArray st1) (index st1) 1,
                          whitePixelCount := whitePixelCount st1 + 1\<rparr>
                 else st1)
      in st2\<lparr>index := index st2 + 1\<rparr>)"

text \<open>The two loops of \<open>subImage\<close>: the variables when the loops are left.\<close>

definition subImageLoops ::
  "number \<Rightarrow> number \<Rightarrow> nat \<Rightarrow> number \<Rightarrow> 8 word list \<Rightarrow> subImageVars" where
  "subImageLoops startX startY size' columns imageData =
     forLoop 0 (of_nat size')
       (\<lambda>row. forLoop 0 (of_nat size') (subImagePixel startX startY columns imageData row))
       \<lparr>subImageArray = [], index = 0, whitePixelCount = 0\<rparr>"

text \<open>\<open>subImage\<close>; \<open>None\<close> is the \<open>undefined\<close> it returns for a sparse cell.\<close>

definition subImage ::
  "number \<Rightarrow> number \<Rightarrow> nat \<Rightarrow> number \<Rightarrow> 8 word list \<Rightarrow> nat list option" where
  "subImage startX startY size' columns imageData =
     (let st = subImageLoops startX startY size' columns imageData
      in if whitePixelCount st < PIXEL_THRESHOLD then None else Some (subImageArray st))"

subsection \<open>buildDataSet\<close>

text \<open>The local variables of \<open>buildDataSet\<close> that its loops update.\<close>

record buildVars =
  trainingMatrices :: "IDigitMatrix list"
  testingMatrices :: "IDigitMatrix list"
  matrixCounter :: nat

text \<open>The body of the inner loop of \<open>buildDataSet\<close>; \<open>continue\<close> leaves it early.\<close>

definition buildCell ::
  "int \<Rightarrow> number \<Rightarrow> 8 word list \<Rightarrow> nat \<Rightarrow> nat \<Rightarrow> buildVars \<Rightarrow> buildVars" where
  "buildCell digit' columns imageData columnsIterator rowsIterator st =
     (let st1 = st\<lparr>matrixCounter := matrixCounter st + 1\<rparr>
      in case subImage (of_nat (rowsIterator * IMAGE_SIZE)) (of_nat (columnsIterator * IMAGE_SIZE))
                IMAGE_SIZE columns imageData of
           None \<Rightarrow> st1
         | Some image' \<Rightarrow>
             (let digitMatrix = \<lparr>digit = digit', matrix = image'\<rparr>
              in if matrixCounter st1 < TRAINING_SET_SIZE
                 then st1\<lparr>trainingMatrices := trainingMatrices st1 @ [digitMatrix]\<rparr>
                 else st1\<lparr>testingMatrices := testingMatrices st1 @ [digitMatrix]\<rparr>))"

definition buildLoops :: "int \<Rightarrow> number \<Rightarrow> number \<Rightarrow> 8 word list \<Rightarrow> buildVars" where
  "buildLoops digit' rows columns imageData =
     forLoop 0 columns
       (\<lambda>columnsIterator. forLoop 0 rows (buildCell digit' columns imageData columnsIterator))
       \<lparr>trainingMatrices = [], testingMatrices = [], matrixCounter = 0\<rparr>"

definition buildDataSet :: "int \<Rightarrow> IImageData \<Rightarrow> error + IDigitDataSet" where
  "buildDataSet digit' imageData =
     (let rows = of_nat (width imageData) / of_nat IMAGE_SIZE;
          columns = of_nat (height imageData) / of_nat IMAGE_SIZE
      in if of_nat DATA_SET_SIZE > rows * columns
         then Inl (LessImagesThanExpected (rows * columns))
         else (let st = buildLoops digit' rows columns (data imageData)
               in Inr \<lparr>trainingSet = trainingMatrices st, testingSet = testingMatrices st\<rparr>))"

subsection \<open>getImageData and getDataSet\<close>

text \<open>
  The file system and the JPEG decoder are outside the repository. A \<open>world\<close> gives what
  they answer: \<open>readFileSync\<close> returns the bytes of a file or throws (\<open>None\<close>), and
  \<open>jpeg.decode\<close> throws, returns a falsy value, or returns the image data.
\<close>

datatype decoded = DecodeThrows | DecodeFalsy | Decoded IImageData

record world =
  readFileSync :: "string \<Rightarrow> 8 word list option"
  jpegDecode :: "8 word list \<Rightarrow> decoded"

text \<open>The calls made to the two collaborators, in order.\<close>

datatype event = ReadFile string | Decode "8 word list"

text \<open>
  The state of the class: the static field \<open>dataCache\<close>, an array used as a map from
  digits to data sets, and the calls made so far.
\<close>

record parserState =
  dataCache :: "int \<rightharpoonup> IDigitDataSet"
  events :: "event list"

text \<open>\<open>digit.toString()\<close> for an integer, and \<open>String.replace\<close> for a pattern without
  special characters: the first occurrence is replaced.\<close>

function natToString :: "nat \<Rightarrow> string" where
  "natToString n =
     (if n < 10 then [char_of (48 + n)]
      else natToString (n div 10) @ [char_of (48 + n mod 10)])"
  by pat_completeness auto
termination
  by (relation "measure id") auto

declare natToString.simps [simp del]

definition numberToString :: "int \<Rightarrow> string" where
  "numberToString d = (if d < 0 then CHR ''-'' # natToString (nat (- d)) else natToString (nat d))"

fun replaceFirst :: "string \<Rightarrow> string \<Rightarrow> string \<Rightarrow> string" where
  "replaceFirst pat rep [] = (if pat = [] then rep else [])"
| "replaceFirst pat rep (c # cs) =
     (if take (length pat) (c # cs) = pat then rep @ drop (length pat) (c # cs)
      else c # replaceFirst pat rep cs)"

definition imagePath :: "int \<Rightarrow> string" where
  "imagePath digit' = replaceFirst ''{DIGIT}'' (numberToString digit') IMAGE_PATH_FORMAT"

definition getImageData ::
  "world \<Rightarrow> string \<Rightarrow> event list \<Rightarrow> (error + IImageData option) \<times> event list" where
  "getImageData w path evs =
     (case readFileSync w path of
        None \<Rightarrow> (Inl (CouldNotFindImage path), evs @ [ReadFile path])
      | Some jpegData \<Rightarrow>
          (case jpegDecode w jpegData of
             DecodeThrows \<Rightarrow> (Inl DecodeException, evs @ [ReadFile path, Decode jpegData])
           | DecodeFalsy \<Rightarrow> (Inr None, evs @ [ReadFile path, Decode jpegData])
           | Decoded imageData \<Rightarrow> (Inr (Some imageData), evs @ [ReadFile path, Decode jpegData])))"

definition getDataSet ::
  "world \<Rightarrow> int \<Rightarrow> parserState \<Rightarrow> (error + IDigitDataSet) \<times> parserState" where
  "getDataSet w digit' s =
     (case dataCache s digit' of
        Some dataSet \<Rightarrow> (Inr dataSet, s)
      | None \<Rightarrow>
          (let (r, evs) = getImageData w (imagePath digit') (events s);
               s1 = s\<lparr>events := evs\<rparr>
           in case r of
                Inl e \<Rightarrow> (Inl e, s1)
              | Inr None \<Rightarrow> (Inl CouldNotLoadImageData, s1)
              | Inr (Some imageData) \<Rightarrow>
                  (case buildDataSet digit' imageData of
                     Inl e \<Rightarrow> (Inl e, s1)
                   | Inr dataSet \<Rightarrow>
                       (Inr dataSet, s1\<lparr>dataCache := (dataCache s1)(digit' \<mapsto> dataSet)\<rparr>))))"

text \<open>
  A run of the process: calls of \<open>getDataSet\<close> one after the other, each in the world of
  its moment; a caller that catches an error goes on with the state the call left.
\<close>

definition getDataSets :: "(world \<times> int) list \<Rightarrow> parserState \<Rightarrow> parserState" where
  "getDataSets calls s = fold (\<lambda>(w, digit') s'. snd (getDataSet w digit' s')) calls s"

subsection \<open>combineDataSets\<close>

record combineVars =
  allTrainingSets :: "IDigitMatrix list"
  allTestingSets :: "IDigitMatrix list"

text \<open>The shuffle of the package \<open>knuth-shuffle\<close> is a parameter.\<close>

definition combineDataSets ::
  "(IDigitMatrix list \<Rightarrow> IDigitMatrix list) \<Rightarrow> IDigitDataSet list \<Rightarrow> bool \<Rightarrow> IDigitDataSet" where
  "combineDataSets shuffle dataSets randomise =
     (let st = forLoop 0 (of_nat (length dataSets))
                 (\<lambda>i st. \<lparr>allTrainingSets = allTrainingSets st @ trainingSet (dataSets ! i),
                          allTestingSets = allTestingSets st @ testingSet (dataSets ! i)\<rparr>)
                 \<lparr>allTrainingSets = [], allTestingSets = []\<rparr>;
          st' = (if randomise
                 then \<lparr>allTrainingSets = shuffle (allTrainingSets st),
                       allTestingSets = shuffle (allTestingSets st)\<rparr>
                 else st)
      in \<lparr>trainingSet = allTrainingSets st', testingSet = allTestingSets st'\<rparr>)"

subsection \<open>printImage\<close>

text \<open>
  The output function is called with one string at a time; \<open>written\<close> collects the
  strings it was called with, in order. The size is a natural number; \<open>i % 0\<close> is
  \<open>NaN\<close>, which is not \<open>0\<close>.
\<close>

record printVars =
  outputStr :: string
  written :: "string list"

definition printPixel ::
  "number list \<Rightarrow> nat \<Rightarrow> number \<Rightarrow> string \<Rightarrow> nat \<Rightarrow> printVars \<Rightarrow> printVars" where
  "printPixel imageData size' threshold symbol i st =
     (let out = outputStr st @ (if imageData ! i > threshold then symbol else '' '')
      in if size' \<noteq> 0 \<and> i mod size' = 0
         then \<lparr>outputStr = [], written = written st @ [out]\<rparr>
         else st\<lparr>outputStr := out\<rparr>)"

definition printImage :: "number list \<Rightarrow> nat \<Rightarrow> number \<Rightarrow> string \<Rightarrow> string list" where
  "printImage imageData size' threshold symbol =
     (let st = forLoop 0 (of_nat (length imageData)) (printPixel imageData size' threshold symbol)
                 \<lparr>outputStr = [], written = []\<rparr>
      in written st @ [outputStr st])"

subsection \<open>Notions used to state the properties\<close>

text \<open>The list \<open>f 0 0, f 0 1, \<dots>, f 0 (n - 1), f 1 0, \<dots>\<close>: what two nested counting
  loops, the outer one to \<open>m\<close> and the inner one to \<open>n\<close>, go through.\<close>

definition grid :: "nat \<Rightarrow> nat \<Rightarrow> (nat \<Rightarrow> nat \<Rightarrow> 'a) \<Rightarrow> 'a list" where
  "grid m n f = concat (map (\<lambda>r. map (f r) [0..<n]) [0..<m])"

text \<open>The entry \<open>subImage\<close> writes for the pixel \<open>(row, column)\<close> of a cell.\<close>

definition cellEntry :: "number \<Rightarrow> number \<Rightarrow> number \<Rightarrow> 8 word list \<Rightarrow> nat \<Rightarrow> nat \<Rightarrow> nat" where
  "cellEntry startX startY columns imageData row column =
     (if jsGreater (uint8Get imageData
           (coordinatesToIndex (of_nat row + startX) (of_nat column + startY) (columns - 1) * 4))
         RGB_THRESHOLD
      then 1 else 0)"

text \<open>What the cell \<open>(columnsIterator, rowsIterator)\<close> adds to a subset: its digit matrix,
  or nothing when \<open>subImage\<close> returns \<open>undefined\<close>.\<close>

definition cellMatrices :: "int \<Rightarrow> number \<Rightarrow> 8 word list \<Rightarrow> nat \<times> nat \<Rightarrow> IDigitMatrix list" where
  "cellMatrices digit' columns imageData =
     (\<lambda>(columnsIterator, rowsIterator).
        case subImage (of_nat (rowsIterator * IMAGE_SIZE)) (of_nat (columnsIterator * IMAGE_SIZE))
               IMAGE_SIZE columns imageData of
          None \<Rightarrow> []
        | Some m \<Rightarrow> [\<lparr>digit = digit', matrix = m\<rparr>])"

definition acceptedCells :: "int \<Rightarrow> number \<Rightarrow> 8 word list \<Rightarrow> (nat \<times> nat) list \<Rightarrow> IDigitMatrix list" where
  "acceptedCells digit' columns imageData cs = concat (map (cellMatrices digit' columns imageData) cs)"

text \<open>The cells \<open>(columnsIterator, rowsIterator)\<close> in the order the loops of
  \<open>buildDataSet\<close> reach them.\<close>

definition gridCells :: "number \<Rightarrow> number \<Rightarrow> (nat \<times> nat) list" where
  "gridCells rows columns = grid (nat \<lceil>columns\<rceil>) (nat \<lceil>rows\<rceil>) Pair"

text \<open>The numbers \<open>rows\<close> and \<open>columns\<close> that \<open>buildDataSet\<close> computes first.\<close>

definition gridRows :: "IImageData \<Rightarrow> number" where
  "gridRows imageData = of_nat (width imageData) / of_nat IMAGE_SIZE"

definition gridColumns :: "IImageData \<Rightarrow> number" where
  "gridColumns imageData = of_nat (height imageData) / of_nat IMAGE_SIZE"


text \<open>
  The cell at a 1-based position of the enumeration, and what \<open>subImage\<close> returns for it.
\<close>

definition cellAt :: "IImageData \<Rightarrow> nat \<Rightarrow> nat \<times> nat" where
  "cellAt imageData p = gridCells (gridRows imageData) (gridColumns imageData) ! (p - 1)"

definition subImageAt :: "IImageData \<Rightarrow> nat \<Rightarrow> nat list option" where
  "subImageAt imageData p =
     (case cellAt imageData p of
        (columnsIterator, rowsIterator) \<Rightarrow>
          subImage (of_nat (rowsIterator * IMAGE_SIZE)) (of_nat (columnsIterator * IMAGE_SIZE))
            IMAGE_SIZE (gridColumns imageData) (data imageData))"

subsection \<open>Example inputs\<close>

text \<open>An image of 550 by 2 cells with every sample at 255, and an image of one cell.\<close>

definition whiteImage :: IImageData where
  "whiteImage = \<lparr>height = 32, width = 8800, data = replicate 1126400 255\<rparr>"

definition smallImage :: IImageData where
  "smallImage = \<lparr>height = 16, width = 16, data = replicate 1024 0\<rparr>"

text \<open>The same image with the samples of the pixels 511 to 750 at 0: of the cell at
  position 3 only the last row is left white.\<close>

definition scratchedImage :: IImageData where
  "scratchedImage =
     \<lparr>height = 32, width = 8800,
      data = replicate 2044 255 @ replicate 960 0 @ replicate 1123396 255\<rparr>"

definition emptyState :: parserState where
  "emptyState = \<lparr>dataCache = Map.empty, events = []\<rparr>"

text \<open>Three worlds: no file can be read; every file decodes to \<open>whiteImage\<close>; every file
  decodes to \<open>smallImage\<close>.\<close>

definition noFiles :: world where
  "noFiles = \<lparr>readFileSync = (\<lambda>path. None), jpegDecode = (\<lambda>jpegData. DecodeThrows)\<rparr>"

definition whiteFiles :: world where
  "whiteFiles = \<lparr>readFileSync = (\<lambda>path. Some []), jpegDecode = (\<lambda>jpegData. Decoded whiteImage)\<rparr>"

definition smallFiles :: world where
  "smallFiles = \<lparr>readFileSync = (\<lambda>path. Some []), jpegDecode = (\<lambda>jpegData. Decoded smallImage)\<rparr>"

section \<open>The loops as folds\<close>

lemma less_number_iff: "(of_nat i < (n::number)) = (i < nat \<lceil>n\<rceil>)"
proof -
  have "(of_nat i < n) = (of_int (int i) < n)" by simp
  also have "\<dots> = (int i < \<lceil>n\<rceil>)" by (simp only: less_ceiling_iff)
  also have "\<dots> = (i < nat \<lceil>n\<rceil>)" by linarith
  finally show ?thesis .
qed

lemma forLoop_fold: "forLoop i n body st = fold body [i..<nat \<lceil>n\<rceil>] st"
proof (induction i n body st rule: forLoop.induct)
  case (1 i n body st)
  show ?case
  proof (cases "of_nat i < n")
    case True
    then have "i < nat \<lceil>n\<rceil>" by (simp add: less_number_iff)
    then have "[i..<nat \<lceil>n\<rceil>] = i # [i + 1..<nat \<lceil>n\<rceil>]"
      by (simp add: upt_conv_Cons)
    moreover have "forLoop i n body st = forLoop (i + 1) n body (body i st)"
      using True by (subst forLoop.simps) simp
    ultimately show ?thesis using 1 True by simp
  next
    case False
    then have "\<not> i < nat \<lceil>n\<rceil>" by (simp add: less_number_iff)
    moreover have "forLoop i n body st = st"
      using False by (subst forLoop.simps) simp
    ultimately show ?thesis by simp
  qed
qed

lemma forLoop_nat: "forLoop 0 (of_nat n) body = fold body [0..<n]"
  by (rule ext) (simp add: forLoop_fold)

lemma grid_Suc: "grid (Suc m) n f = grid m n f @ map (f m) [0..<n]"
  by (simp add: grid_def)

lemma length_grid: "length (grid m n f) = m * n"
  by (induction m) (simp_all add: grid_Suc, simp add: grid_def)

lemma nth_grid: "k < m * n \<Longrightarrow> grid m n f ! k = f (k div n) (k mod n)"
proof (induction m)
  case 0
  then show ?case by simp
next
  case (Suc m)
  show ?case
  proof (cases "k < m * n")
    case True
    with Suc.IH show ?thesis by (simp add: grid_Suc nth_append length_grid)
  next
    case False
    with Suc.prems have k: "m * n \<le> k" "k - m * n < n" by auto
    then have "k = (k - m * n) + m * n" by simp
    then obtain j where j: "k = j + m * n" "j < n" using k by blast
    then have "k div n = m" "k mod n = j" by simp_all
    with j show ?thesis by (simp add: grid_Suc nth_append length_grid)
  qed
qed

lemma fold_grid: "fold (\<lambda>r. fold (g r) [0..<n]) [0..<m] st = fold (\<lambda>(r, c). g r c) (grid m n Pair) st"
  by (induction m arbitrary: st) (simp_all add: grid_Suc fold_map comp_def, simp add: grid_def)


lemma subImagePixel_append:
  "index st = length (subImageArray st) \<Longrightarrow>
   subImagePixel startX startY columns imageData row column st =
     \<lparr>subImageArray = subImageArray st @ [cellEntry startX startY columns imageData row column],
      index = index st + 1,
      whitePixelCount = whitePixelCount st + cellEntry startX startY columns imageData row column\<rparr>"
  by (simp add: subImagePixel_def cellEntry_def arraySet_def Let_def)

lemma fold_subImagePixel:
  "index st = length (subImageArray st) \<Longrightarrow>
   fold (subImagePixel startX startY columns imageData row) cs st =
     \<lparr>subImageArray = subImageArray st @ map (cellEntry startX startY columns imageData row) cs,
      index = index st + length cs,
      whitePixelCount =
        whitePixelCount st + sum_list (map (cellEntry startX startY columns imageData row) cs)\<rparr>"
proof (induction cs arbitrary: st)
  case Nil
  then show ?case by simp
next
  case (Cons c cs)
  let ?st = "subImagePixel startX startY columns imageData row c st"
  have "index ?st = length (subImageArray ?st)"
    using Cons.prems by (simp add: subImagePixel_append)
  from Cons.IH [OF this] show ?case
    using Cons.prems by (simp add: subImagePixel_append)
qed

lemma fold_subImageRows:
  "index st = length (subImageArray st) \<Longrightarrow>
   fold (\<lambda>row. fold (subImagePixel startX startY columns imageData row) cs) rs st =
     \<lparr>subImageArray =
        subImageArray st @ concat (map (\<lambda>row. map (cellEntry startX startY columns imageData row) cs) rs),
      index = index st + length rs * length cs,
      whitePixelCount =
        whitePixelCount st +
        sum_list (concat (map (\<lambda>row. map (cellEntry startX startY columns imageData row) cs) rs))\<rparr>"
proof (induction rs arbitrary: st)
  case Nil
  then show ?case by simp
next
  case (Cons r rs)
  let ?st = "fold (subImagePixel startX startY columns imageData r) cs st"
  have "index ?st = length (subImageArray ?st)"
    using Cons.prems by (simp add: fold_subImagePixel)
  from Cons.IH [OF this] show ?case
    using Cons.prems by (simp add: fold_subImagePixel)
qed

lemma subImageLoops_grid:
  "subImageLoops startX startY n columns imageData =
     \<lparr>subImageArray = grid n n (cellEntry startX startY columns imageData),
      index = n * n,
      whitePixelCount = sum_list (grid n n (cellEntry startX startY columns imageData))\<rparr>"
  by (simp add: subImageLoops_def forLoop_nat fold_subImageRows grid_def)

lemma subImage_grid:
  "subImage startX startY n columns imageData =
     (if sum_list (grid n n (cellEntry startX startY columns imageData)) < PIXEL_THRESHOLD
      then None else Some (grid n n (cellEntry startX startY columns imageData)))"
  by (simp add: subImage_def subImageLoops_grid)

lemma cellEntry_le_1: "cellEntry startX startY columns imageData row column \<le> 1"
  by (simp add: cellEntry_def)

lemma set_grid: "set (grid m n f) = {f r c | r c. r < m \<and> c < n}"
  by (fastforce simp: grid_def)

lemma sum_list_01: "set xs \<subseteq> {0, 1::nat} \<Longrightarrow> sum_list xs = length (filter (\<lambda>x. x = 1) xs)"
  by (induction xs) auto


lemma buildCell_counter:
  "matrixCounter (buildCell d columns imageData ci ri st) = matrixCounter st + 1"
  by (simp add: buildCell_def Let_def split: option.split)

lemma buildCell_training:
  "matrixCounter st + 1 < TRAINING_SET_SIZE \<Longrightarrow>
   buildCell d columns imageData ci ri st =
     st\<lparr>trainingMatrices := trainingMatrices st @ cellMatrices d columns imageData (ci, ri),
        matrixCounter := matrixCounter st + 1\<rparr>"
  by (simp add: buildCell_def cellMatrices_def Let_def split: option.split)

lemma buildCell_testing:
  "\<not> matrixCounter st + 1 < TRAINING_SET_SIZE \<Longrightarrow>
   buildCell d columns imageData ci ri st =
     st\<lparr>testingMatrices := testingMatrices st @ cellMatrices d columns imageData (ci, ri),
        matrixCounter := matrixCounter st + 1\<rparr>"
  by (simp add: buildCell_def cellMatrices_def Let_def split: option.split)

lemma fold_buildCell_training:
  "matrixCounter st + length cs < TRAINING_SET_SIZE \<Longrightarrow>
   fold (\<lambda>(ci, ri). buildCell d columns imageData ci ri) cs st =
     st\<lparr>trainingMatrices := trainingMatrices st @ acceptedCells d columns imageData cs,
        matrixCounter := matrixCounter st + length cs\<rparr>"
proof (induction cs arbitrary: st)
  case Nil
  then show ?case by (simp add: acceptedCells_def)
next
  case (Cons c cs)
  obtain ci ri where c: "c = (ci, ri)" by (cases c)
  have 1: "matrixCounter st + 1 < TRAINING_SET_SIZE" using Cons.prems by simp
  let ?st = "buildCell d columns imageData ci ri st"
  have "matrixCounter ?st + length cs < TRAINING_SET_SIZE"
    using Cons.prems by (simp add: buildCell_counter)
  from Cons.IH [OF this] show ?case
    by (simp add: c buildCell_training [OF 1] acceptedCells_def)
qed

lemma fold_buildCell_testing:
  "TRAINING_SET_SIZE \<le> matrixCounter st + 1 \<Longrightarrow>
   fold (\<lambda>(ci, ri). buildCell d columns imageData ci ri) cs st =
     st\<lparr>testingMatrices := testingMatrices st @ acceptedCells d columns imageData cs,
        matrixCounter := matrixCounter st + length cs\<rparr>"
proof (induction cs arbitrary: st)
  case Nil
  then show ?case by (simp add: acceptedCells_def)
next
  case (Cons c cs)
  obtain ci ri where c: "c = (ci, ri)" by (cases c)
  have 1: "\<not> matrixCounter st + 1 < TRAINING_SET_SIZE" using Cons.prems by simp
  let ?st = "buildCell d columns imageData ci ri st"
  have "TRAINING_SET_SIZE \<le> matrixCounter ?st + 1"
    using Cons.prems by (simp add: buildCell_counter)
  from Cons.IH [OF this] show ?case
    by (simp add: c buildCell_testing [OF 1] acceptedCells_def)
qed

lemma fold_buildCell:
  "fold (\<lambda>(ci, ri). buildCell d columns imageData ci ri) cs
     \<lparr>trainingMatrices = [], testingMatrices = [], matrixCounter = 0\<rparr> =
   \<lparr>trainingMatrices = acceptedCells d columns imageData (take (TRAINING_SET_SIZE - 1) cs),
    testingMatrices = acceptedCells d columns imageData (drop (TRAINING_SET_SIZE - 1) cs),
    matrixCounter = length cs\<rparr>"
proof -
  let ?f = "\<lambda>(ci, ri). buildCell d columns imageData ci ri"
  let ?st0 = "\<lparr>trainingMatrices = [], testingMatrices = [], matrixCounter = 0\<rparr>"
  let ?n = "TRAINING_SET_SIZE - 1"
  let ?st1 = "?st0\<lparr>trainingMatrices := acceptedCells d columns imageData (take ?n cs),
           matrixCounter := length (take ?n cs)\<rparr>"
  have "fold ?f cs ?st0 = fold ?f (take ?n cs @ drop ?n cs) ?st0"
    by simp
  also have "\<dots> = fold ?f (drop ?n cs) (fold ?f (take ?n cs) ?st0)"
    by (simp only: fold_append comp_apply)
  also have "fold ?f (take ?n cs) ?st0 = ?st1"
    by (subst fold_buildCell_training) (simp_all add: TRAINING_SET_SIZE_def)
  finally have split: "fold ?f cs ?st0 = fold ?f (drop ?n cs) ?st1" .
  show ?thesis
  proof (cases "length cs \<le> ?n")
    case True
    then show ?thesis
      by (simp add: split acceptedCells_def)
  next
    case False
    then have "TRAINING_SET_SIZE \<le> matrixCounter ?st1 + 1"
      by (simp add: TRAINING_SET_SIZE_def)
    from fold_buildCell_testing [OF this] False show ?thesis
      by (simp add: split)
  qed
qed

lemma buildLoops_cells:
  "buildLoops d rows columns imageData =
     \<lparr>trainingMatrices =
        acceptedCells d columns imageData (take (TRAINING_SET_SIZE - 1) (gridCells rows columns)),
      testingMatrices =
        acceptedCells d columns imageData (drop (TRAINING_SET_SIZE - 1) (gridCells rows columns)),
      matrixCounter = length (gridCells rows columns)\<rparr>"
proof -
  have "buildLoops d rows columns imageData =
      fold (\<lambda>(ci, ri). buildCell d columns imageData ci ri) (gridCells rows columns)
        \<lparr>trainingMatrices = [], testingMatrices = [], matrixCounter = 0\<rparr>"
    unfolding buildLoops_def gridCells_def
    by (simp add: forLoop_fold [abs_def] fold_grid)
  then show ?thesis by (simp only: fold_buildCell)
qed

lemma buildDataSet_cells:
  "buildDataSet d imageData =
     (let rows = of_nat (width imageData) / of_nat IMAGE_SIZE;
          columns = of_nat (height imageData) / of_nat IMAGE_SIZE
      in if rows * columns < of_nat DATA_SET_SIZE
         then Inl (LessImagesThanExpected (rows * columns))
         else Inr \<lparr>trainingSet =
                     acceptedCells d columns (data imageData)
                       (take (TRAINING_SET_SIZE - 1) (gridCells rows columns)),
                   testingSet =
                     acceptedCells d columns (data imageData)
                       (drop (TRAINING_SET_SIZE - 1) (gridCells rows columns))\<rparr>)"
  by (simp add: buildDataSet_def buildLoops_cells Let_def)


section \<open>The capacity check of buildDataSet\<close>

text \<open>
  Claim C5. \<open>buildDataSet\<close> fails exactly when \<open>rows * columns < DATA_SET_SIZE = 1100\<close>,
  with \<open>rows = width / IMAGE_SIZE\<close> and \<open>columns = height / IMAGE_SIZE\<close>. The failure is
  decided by the dimensions alone, before any cell is read: whatever the pixel buffer
  holds, the result is the error and no data set.
\<close>

theorem buildDataSet_fails_iff:
  "((\<exists>e. buildDataSet d imageData = Inl e) \<longleftrightarrow>
      gridRows imageData * gridColumns imageData < of_nat DATA_SET_SIZE) \<and>
   (gridRows imageData * gridColumns imageData < of_nat DATA_SET_SIZE \<longrightarrow>
      (\<forall>buf. buildDataSet d (imageData\<lparr>data := buf\<rparr>) =
         Inl (LessImagesThanExpected (gridRows imageData * gridColumns imageData))))"
  by (simp add: buildDataSet_def gridRows_def gridColumns_def Let_def)

theorem buildDataSet_fails_iff_witness:
  "buildDataSet 3 \<lparr>height = 16, width = 16, data = replicate 1024 255\<rparr> =
     Inl (LessImagesThanExpected 1)"
  using buildDataSet_fails_iff [of 3 "\<lparr>height = 16, width = 16, data = []\<rparr>"]
  by (simp add: gridRows_def gridColumns_def IMAGE_SIZE_def DATA_SET_SIZE_def)

section \<open>combineDataSets without shuffling\<close>

lemma fold_combine:
  "n \<le> length dataSets \<Longrightarrow>
   fold (\<lambda>i st. \<lparr>allTrainingSets = allTrainingSets st @ trainingSet (dataSets ! i),
                  allTestingSets = allTestingSets st @ testingSet (dataSets ! i)\<rparr>) [0..<n]
     \<lparr>allTrainingSets = [], allTestingSets = []\<rparr> =
   \<lparr>allTrainingSets = concat (map trainingSet (take n dataSets)),
    allTestingSets = concat (map testingSet (take n dataSets))\<rparr>"
proof (induction n)
  case 0
  then show ?case by simp
next
  case (Suc n)
  then have "take (Suc n) dataSets = take n dataSets @ [dataSets ! n]"
    by (simp add: take_Suc_conv_app_nth)
  with Suc show ?case by simp
qed

text \<open>
  Claim C8. With \<open>randomise = false\<close>, \<open>combineDataSets\<close> returns the training sets of
  its inputs one after the other in input order, and likewise the testing sets, whatever
  the shuffle is. The function reads its argument and the arrays it builds with
  \<open>concat\<close> are new: its only effect is the value it returns, so neither the inputs nor
  \<open>dataCache\<close> change.
\<close>

theorem combineDataSets_concat:
  "combineDataSets shuffle dataSets False =
     \<lparr>trainingSet = concat (map trainingSet dataSets),
      testingSet = concat (map testingSet dataSets)\<rparr>"
  by (simp add: combineDataSets_def forLoop_nat fold_combine)

section \<open>The rows printImage writes\<close>

text \<open>
  Claim C9 says that \<open>printImage\<close> writes rows of exactly \<open>size\<close> characters. The source
  tests \<open>i % size === 0\<close> after it has appended the character of element \<open>i\<close>, so the
  first string written holds one character and every later row starts one element late:
  four elements printed with size 2 give rows of 1, 2 and 1 characters.
\<close>

theorem printImage_first_row_short:
  "printImage [1, 1, 1, 1] 2 (1 / 2) ''#'' = [''#'', ''##'', ''#'']"
  by code_simp

section \<open>The cache of getDataSet\<close>

lemma imagePath_3: "imagePath 3 = ''raw_data/usps_3.jpg''"
  by code_simp

lemma imagePath_5: "imagePath 5 = ''raw_data/usps_5.jpg''"
  by code_simp

lemma buildDataSet_smallImage: "buildDataSet d smallImage = Inl (LessImagesThanExpected 1)"
  by (simp add: buildDataSet_def smallImage_def IMAGE_SIZE_def DATA_SET_SIZE_def)

lemma buildDataSet_whiteImage:
  "buildDataSet d whiteImage =
     Inr \<lparr>trainingSet = acceptedCells d 2 (data whiteImage) (take 549 (gridCells 550 2)),
          testingSet = acceptedCells d 2 (data whiteImage) (drop 549 (gridCells 550 2))\<rparr>"
  by (simp add: buildDataSet_cells whiteImage_def IMAGE_SIZE_def DATA_SET_SIZE_def
      TRAINING_SET_SIZE_def)

lemma getDataSet_Inr_cached:
  "getDataSet w d s = (Inr ds, s1) \<Longrightarrow> dataCache s1 d = Some ds"
  by (auto simp: getDataSet_def Let_def split: option.splits prod.splits sum.splits)

lemma getDataSet_keeps_entry:
  "dataCache s d = Some ds \<Longrightarrow> dataCache (snd (getDataSet w d' s)) d = Some ds"
  by (auto simp: getDataSet_def Let_def split: option.splits prod.splits sum.splits)

lemma getDataSets_keeps_entry:
  "dataCache s d = Some ds \<Longrightarrow> dataCache (getDataSets calls s) d = Some ds"
proof (induction calls arbitrary: s)
  case Nil
  then show ?case by (simp add: getDataSets_def)
next
  case (Cons c calls)
  obtain w d' where c: "c = (w, d')" by (cases c)
  have "dataCache (snd (getDataSet w d' s)) d = Some ds"
    using Cons.prems by (rule getDataSet_keeps_entry)
  from Cons.IH [OF this] show ?case
    by (simp add: getDataSets_def c)
qed

lemma getDataSet_hit:
  "dataCache s d = Some ds \<Longrightarrow> getDataSet w d s = (Inr ds, s)"
  by (simp add: getDataSet_def)

lemma getDataSet_whiteFiles:
  "getDataSet whiteFiles 5 s =
     (if dataCache s 5 = None
      then (Inr \<lparr>trainingSet = acceptedCells 5 2 (data whiteImage) (take 549 (gridCells 550 2)),
                 testingSet = acceptedCells 5 2 (data whiteImage) (drop 549 (gridCells 550 2))\<rparr>,
            s\<lparr>events := events s @ [ReadFile ''raw_data/usps_5.jpg'', Decode []],
              dataCache := (dataCache s)(5 \<mapsto>
                \<lparr>trainingSet = acceptedCells 5 2 (data whiteImage) (take 549 (gridCells 550 2)),
                 testingSet = acceptedCells 5 2 (data whiteImage) (drop 549 (gridCells 550 2))\<rparr>)\<rparr>)
      else (Inr (the (dataCache s 5)), s))"
  by (auto simp: getDataSet_def getImageData_def whiteFiles_def imagePath_5
      buildDataSet_whiteImage)

text \<open>
  Claim C3 says that for every label the second of two successive calls does not invoke
  the decoder again, and that the decode-and-build path runs at most once per label. That
  fails when the first call fails: where the image of digit 3 decodes to a single cell,
  both calls read and decode the file and both throw.
\<close>

theorem getDataSet_redecodes_after_failure:
  "getDataSet smallFiles 3 emptyState =
     (Inl (LessImagesThanExpected 1),
      \<lparr>dataCache = Map.empty, events = [ReadFile ''raw_data/usps_3.jpg'', Decode []]\<rparr>) \<and>
   getDataSet smallFiles 3 (snd (getDataSet smallFiles 3 emptyState)) =
     (Inl (LessImagesThanExpected 1),
      \<lparr>dataCache = Map.empty,
        events = [ReadFile ''raw_data/usps_3.jpg'', Decode [],
                  ReadFile ''raw_data/usps_3.jpg'', Decode []]\<rparr>)"
  by (simp add: getDataSet_def getImageData_def smallFiles_def emptyState_def imagePath_3
      buildDataSet_smallImage)

text \<open>
  Claim C3, amended. Once a call \<open>getDataSet(label)\<close> has returned a data set, every later
  call for that label, after any further calls for any labels and whatever the files
  have become, returns the same data set and leaves the state as it was: no file is read,
  nothing is decoded or built, and the cache is not written.
\<close>

theorem getDataSet_cache_hit:
  assumes "getDataSet w digit' s = (Inr dataSet, s1)"
  shows "getDataSet w2 digit' (getDataSets calls s1) = (Inr dataSet, getDataSets calls s1)"
  by (rule getDataSet_hit, rule getDataSets_keeps_entry, rule getDataSet_Inr_cached, rule assms)

theorem getDataSet_cache_hit_witness:
  "getDataSet noFiles 5
      (getDataSets [(noFiles, 5), (smallFiles, 3)] (snd (getDataSet whiteFiles 5 emptyState))) =
   (fst (getDataSet whiteFiles 5 emptyState),
    getDataSets [(noFiles, 5), (smallFiles, 3)] (snd (getDataSet whiteFiles 5 emptyState))) \<and>
   fst (getDataSet whiteFiles 5 emptyState) =
     Inr \<lparr>trainingSet = acceptedCells 5 2 (data whiteImage) (take 549 (gridCells 550 2)),
          testingSet = acceptedCells 5 2 (data whiteImage) (drop 549 (gridCells 550 2))\<rparr>"
proof -
  have 1: "getDataSet whiteFiles 5 emptyState =
      (fst (getDataSet whiteFiles 5 emptyState), snd (getDataSet whiteFiles 5 emptyState))"
    by simp
  have 2: "fst (getDataSet whiteFiles 5 emptyState) =
     Inr \<lparr>trainingSet = acceptedCells 5 2 (data whiteImage) (take 549 (gridCells 550 2)),
          testingSet = acceptedCells 5 2 (data whiteImage) (drop 549 (gridCells 550 2))\<rparr>"
    by (simp add: getDataSet_whiteFiles emptyState_def)
  from getDataSet_cache_hit [OF 1 [unfolded 2], of noFiles "[(noFiles, 5), (smallFiles, 3)]"] 2
  show ?thesis by simp
qed

text \<open>
  Claim C7. When \<open>getDataSet(label)\<close> fails, for whichever reason, the cache is as it was
  before the call and has no entry for the label. The next call for the label goes
  through the file again, and where the file now reads and decodes to an image that
  \<open>buildDataSet\<close> accepts, that call returns the data set and stores it.
\<close>

theorem getDataSet_failure_leaves_cache:
  assumes "getDataSet w digit' s = (Inl e, s1)"
  shows "dataCache s1 = dataCache s \<and> dataCache s1 digit' = None \<and>
    events (snd (getDataSet w2 digit' s1)) \<noteq> events s1 \<and>
    (readFileSync w2 (imagePath digit') = Some jpegData \<and>
     jpegDecode w2 jpegData = Decoded imageData \<and>
     buildDataSet digit' imageData = Inr dataSet \<longrightarrow>
       getDataSet w2 digit' s1 =
         (Inr dataSet,
          s1\<lparr>events := events s1 @ [ReadFile (imagePath digit'), Decode jpegData],
             dataCache := (dataCache s1)(digit' \<mapsto> dataSet)\<rparr>))"
proof -
  from assms have 1: "dataCache s1 = dataCache s" and 2: "dataCache s digit' = None"
    by (auto simp: getDataSet_def Let_def split: option.splits prod.splits sum.splits)
  from 1 2 have 3: "dataCache s1 digit' = None" by simp
  have 4: "events (snd (getDataSet w2 digit' s1)) \<noteq> events s1"
    using 3
    by (auto simp: getDataSet_def getImageData_def Let_def
        split: option.splits prod.splits sum.splits decoded.splits)
  have 5: "readFileSync w2 (imagePath digit') = Some jpegData \<and>
     jpegDecode w2 jpegData = Decoded imageData \<and>
     buildDataSet digit' imageData = Inr dataSet \<longrightarrow>
       getDataSet w2 digit' s1 =
         (Inr dataSet,
          s1\<lparr>events := events s1 @ [ReadFile (imagePath digit'), Decode jpegData],
             dataCache := (dataCache s1)(digit' \<mapsto> dataSet)\<rparr>)"
    using 3 by (simp add: getDataSet_def getImageData_def)
  from 1 3 4 5 show ?thesis by blast
qed

theorem getDataSet_failure_leaves_cache_witness:
  "getDataSet noFiles 5 emptyState =
     (Inl (CouldNotFindImage ''raw_data/usps_5.jpg''),
      \<lparr>dataCache = Map.empty, events = [ReadFile ''raw_data/usps_5.jpg'']\<rparr>) \<and>
   getDataSet whiteFiles 5 \<lparr>dataCache = Map.empty, events = [ReadFile ''raw_data/usps_5.jpg'']\<rparr> =
     (Inr \<lparr>trainingSet = acceptedCells 5 2 (data whiteImage) (take 549 (gridCells 550 2)),
           testingSet = acceptedCells 5 2 (data whiteImage) (drop 549 (gridCells 550 2))\<rparr>,
      \<lparr>dataCache = [5 \<mapsto>
          \<lparr>trainingSet = acceptedCells 5 2 (data whiteImage) (take 549 (gridCells 550 2)),
           testingSet = acceptedCells 5 2 (data whiteImage) (drop 549 (gridCells 550 2))\<rparr>],
       events = [ReadFile ''raw_data/usps_5.jpg'',
                 ReadFile ''raw_data/usps_5.jpg'', Decode []]\<rparr>)"
proof -
  have 1: "getDataSet noFiles 5 emptyState =
     (Inl (CouldNotFindImage ''raw_data/usps_5.jpg''),
      \<lparr>dataCache = Map.empty, events = [ReadFile ''raw_data/usps_5.jpg'']\<rparr>)"
    by (simp add: getDataSet_def getImageData_def noFiles_def emptyState_def imagePath_5)
  from getDataSet_failure_leaves_cache [OF 1, of whiteFiles "[]" whiteImage
      "\<lparr>trainingSet = acceptedCells 5 2 (data whiteImage) (take 549 (gridCells 550 2)),
        testingSet = acceptedCells 5 2 (data whiteImage) (drop 549 (gridCells 550 2))\<rparr>"]
  have "getDataSet whiteFiles 5 \<lparr>dataCache = Map.empty, events = [ReadFile ''raw_data/usps_5.jpg'']\<rparr> =
     (Inr \<lparr>trainingSet = acceptedCells 5 2 (data whiteImage) (take 549 (gridCells 550 2)),
           testingSet = acceptedCells 5 2 (data whiteImage) (drop 549 (gridCells 550 2))\<rparr>,
      \<lparr>dataCache = [5 \<mapsto>
          \<lparr>trainingSet = acceptedCells 5 2 (data whiteImage) (take 549 (gridCells 550 2)),
           testingSet = acceptedCells 5 2 (data whiteImage) (drop 549 (gridCells 550 2))\<rparr>],
       events = [ReadFile ''raw_data/usps_5.jpg'',
                 ReadFile ''raw_data/usps_5.jpg'', Decode []]\<rparr>)"
    by (simp add: whiteFiles_def imagePath_5 buildDataSet_whiteImage emptyState_def)
  with 1 show ?thesis by simp
qed

section \<open>The entries of a cell\<close>

lemma grid_index_less: "row < n \<Longrightarrow> column < n \<Longrightarrow> row * n + column < n * (n::nat)"
proof -
  assume a: "row < n" "column < n"
  then have "row * n + column < Suc row * n" by simp
  also have "\<dots> \<le> n * n" using a by (intro mult_le_mono1) simp
  finally show ?thesis .
qed

lemma nth_subImageArray:
  "row < n \<Longrightarrow> column < n \<Longrightarrow>
   subImageArray (subImageLoops startX startY n columns imageData) ! (row * n + column) =
     cellEntry startX startY columns imageData row column"
  by (simp add: subImageLoops_grid nth_grid grid_index_less)

lemma set_subImageArray:
  "set (subImageArray (subImageLoops startX startY n columns imageData)) \<subseteq> {0, 1}"
  by (auto simp: subImageLoops_grid set_grid cellEntry_def)

lemma cellEntry_explicit:
  "cellEntry startX startY columns imageData row column =
     (let byteOffset =
        ((of_nat column + startY) - 1 + (of_nat row + startX) * (columns - 1) * 16) * 4
      in if of_int \<lfloor>byteOffset\<rfloor> = byteOffset \<and> 0 \<le> byteOffset \<and>
            \<lfloor>byteOffset\<rfloor> < int (length imageData) \<and>
            60 < unat (imageData ! nat \<lfloor>byteOffset\<rfloor>)
         then 1 else 0)"
  by (simp add: cellEntry_def jsGreater_def uint8Get_def coordinatesToIndex_def IMAGE_SIZE_def
      RGB_THRESHOLD_def Let_def)

lemma subImage_exact:
  "subImage startX startY n columns imageData =
     (if length (filter (\<lambda>x. x = 1)
            (subImageArray (subImageLoops startX startY n columns imageData))) < 30
      then None
      else Some (subImageArray (subImageLoops startX startY n columns imageData)))"
proof -
  let ?arr = "subImageArray (subImageLoops startX startY n columns imageData)"
  have "set ?arr \<subseteq> {0, 1}" by (rule set_subImageArray)
  then have "sum_list ?arr = length (filter (\<lambda>x. x = 1) ?arr)" by (rule sum_list_01)
  moreover have "whitePixelCount (subImageLoops startX startY n columns imageData) = sum_list ?arr"
    by (simp add: subImageLoops_grid)
  ultimately show ?thesis
    by (simp add: subImage_def Let_def PIXEL_THRESHOLD_def)
qed



lemma uint8Get_of_int:
  "uint8Get a (of_int z) = (if 0 \<le> z \<and> z < int (length a) then Some (a ! nat z) else None)"
  by (simp add: uint8Get_def)

lemma coordinatesToIndex_of_int:
  "coordinatesToIndex (of_nat row + of_nat (ri * IMAGE_SIZE))
      (of_nat column + of_nat (ci * IMAGE_SIZE)) (of_nat c - 1) * 4 =
   of_int (4 * (int column + 16 * int ci - 1 + 16 * (int row + 16 * int ri) * (int c - 1)))"
  by (simp add: coordinatesToIndex_def IMAGE_SIZE_def algebra_simps)

lemma sum_list_grid:
  "sum_list (grid m n f) = (\<Sum>r = 0..<m. \<Sum>c = 0..<n. (f r c :: nat))"
proof (induction m)
  case 0
  then show ?case by (simp add: grid_def)
next
  case (Suc m)
  then show ?case
    by (simp add: grid_Suc interv_sum_list_conv_sum_set_nat)
qed

lemma cellEntry_int:
  "cellEntry (of_nat (ri * IMAGE_SIZE)) (of_nat (ci * IMAGE_SIZE)) (of_nat c) imageData row column =
     (if jsGreater
           (uint8Get imageData
              (of_int (4 * (int column + 16 * int ci - 1 + 16 * (int row + 16 * int ri) * (int c - 1)))))
           RGB_THRESHOLD
      then 1 else 0)"
  unfolding cellEntry_def coordinatesToIndex_of_int ..

lemma two_rows_accepted:
  assumes "r1 < IMAGE_SIZE" "r2 < IMAGE_SIZE" "r1 \<noteq> r2"
    and "\<forall>column<IMAGE_SIZE. cellEntry startX startY columns imageData r1 column = 1"
    and "\<forall>column<IMAGE_SIZE. cellEntry startX startY columns imageData r2 column = 1"
  shows "subImage startX startY IMAGE_SIZE columns imageData \<noteq> None"
proof -
  let ?e = "cellEntry startX startY columns imageData"
  let ?g = "\<lambda>r. \<Sum>c = 0..<IMAGE_SIZE. ?e r c"
  have "?g r1 = IMAGE_SIZE" "?g r2 = IMAGE_SIZE"
    using assms(4,5) by simp_all
  then have "sum ?g {r1, r2} = 2 * IMAGE_SIZE"
    using assms(3) by simp
  moreover have "sum ?g {r1, r2} \<le> sum ?g {0..<IMAGE_SIZE}"
    using assms(1,2) by (intro sum_mono2) auto
  ultimately have "2 * IMAGE_SIZE \<le> sum_list (grid IMAGE_SIZE IMAGE_SIZE ?e)"
    by (simp add: sum_list_grid)
  then show ?thesis
    by (simp add: subImage_grid IMAGE_SIZE_def PIXEL_THRESHOLD_def)
qed

lemma one_row_rejected:
  assumes "\<forall>row<15. \<forall>column<IMAGE_SIZE. cellEntry startX startY columns imageData row column = 0"
  shows "subImage startX startY IMAGE_SIZE columns imageData = None"
proof -
  let ?e = "cellEntry startX startY columns imageData"
  let ?g = "\<lambda>r. \<Sum>c = 0..<IMAGE_SIZE. ?e r c"
  have "sum ?g {0..<15} = 0"
    using assms by simp
  moreover have "?g 15 \<le> (\<Sum>c = 0..<IMAGE_SIZE. 1)"
    by (intro sum_mono) (rule cellEntry_le_1)
  moreover have "{0..<IMAGE_SIZE} = {0..<Suc 15}"
    by (simp add: IMAGE_SIZE_def)
  then have "sum ?g {0..<IMAGE_SIZE} = sum ?g {0..<15} + ?g 15"
    by (simp only: sum.atLeast0_lessThan_Suc)
  ultimately have "sum_list (grid IMAGE_SIZE IMAGE_SIZE ?e) \<le> IMAGE_SIZE"
    by (simp add: sum_list_grid)
  then show ?thesis
    by (simp add: subImage_grid IMAGE_SIZE_def PIXEL_THRESHOLD_def)
qed

lemma whiteImage_entry:
  assumes "ri < 550" "ci < 2" "1 \<le> row" "row < IMAGE_SIZE" "column < IMAGE_SIZE"
  shows "cellEntry (of_nat (ri * IMAGE_SIZE)) (of_nat (ci * IMAGE_SIZE)) 2 (data whiteImage)
           row column = 1"
proof -
  have "cellEntry (of_nat (ri * IMAGE_SIZE)) (of_nat (ci * IMAGE_SIZE)) (of_nat 2) (data whiteImage)
           row column = 1"
    unfolding cellEntry_int uint8Get_of_int
    using assms
    by (simp add: jsGreater_def whiteImage_def IMAGE_SIZE_def RGB_THRESHOLD_def)
  then show ?thesis by simp
qed

lemma whiteImage_accepted:
  assumes "ri < 550" "ci < 2"
  shows "subImage (of_nat (ri * IMAGE_SIZE)) (of_nat (ci * IMAGE_SIZE)) IMAGE_SIZE 2
           (data whiteImage) \<noteq> None"
proof (rule two_rows_accepted [of 1 2])
  show "1 < IMAGE_SIZE" "2 < IMAGE_SIZE" "(1::nat) \<noteq> 2"
    by (simp_all add: IMAGE_SIZE_def)
  show "\<forall>column<IMAGE_SIZE. cellEntry (of_nat (ri * IMAGE_SIZE)) (of_nat (ci * IMAGE_SIZE)) 2
      (data whiteImage) 1 column = 1"
    using assms by (intro allI impI whiteImage_entry) (simp_all add: IMAGE_SIZE_def)
  show "\<forall>column<IMAGE_SIZE. cellEntry (of_nat (ri * IMAGE_SIZE)) (of_nat (ci * IMAGE_SIZE)) 2
      (data whiteImage) 2 column = 1"
    using assms by (intro allI impI whiteImage_entry) (simp_all add: IMAGE_SIZE_def)
qed





section \<open>The split by position\<close>

lemma matrices_acceptedCells:
  "map (\<lambda>dm. Some (matrix dm)) (acceptedCells d columns imageData cs) =
     filter (\<lambda>x. x \<noteq> None)
       (map (\<lambda>(ci, ri). subImage (of_nat (ri * IMAGE_SIZE)) (of_nat (ci * IMAGE_SIZE))
                IMAGE_SIZE columns imageData) cs)"
proof (induction cs)
  case Nil
  then show ?case by (simp add: acceptedCells_def)
next
  case (Cons c cs)
  obtain ci ri where c: "c = (ci, ri)" by (cases c)
  show ?case
    using Cons.IH by (simp add: c acceptedCells_def cellMatrices_def split: option.split)
qed

lemma digit_acceptedCells:
  "dm \<in> set (acceptedCells d columns imageData cs) \<Longrightarrow> digit dm = d"
  by (auto simp: acceptedCells_def cellMatrices_def split: option.splits)

lemma take_nths: "n \<le> length xs \<Longrightarrow> take n xs = map (\<lambda>p. xs ! (p - 1)) [1..<Suc n]"
proof -
  assume n: "n \<le> length xs"
  have "take n xs = take n (map ((!) xs) [0..<length xs])"
    by (simp only: map_nth)
  also have "\<dots> = map ((!) xs) [0..<n]"
    using n by (simp add: take_map)
  also have "\<dots> = map (\<lambda>p. xs ! (p - 1)) (map Suc [0..<n])"
    by (simp add: comp_def)
  also have "map Suc [0..<n] = [1..<Suc n]"
    by (simp only: map_Suc_upt One_nat_def)
  finally show ?thesis .
qed

lemma drop_nths: "drop n xs = map (\<lambda>p. xs ! (p - 1)) [Suc n..<Suc (length xs)]"
proof -
  have "drop n xs = drop n (map ((!) xs) [0..<length xs])"
    by (simp only: map_nth)
  also have "\<dots> = map ((!) xs) [n..<length xs]"
    by (simp add: drop_map)
  also have "\<dots> = map (\<lambda>p. xs ! (p - 1)) (map Suc [n..<length xs])"
    by (simp add: comp_def)
  also have "map Suc [n..<length xs] = [Suc n..<Suc (length xs)]"
    by (simp only: map_Suc_upt)
  finally show ?thesis .
qed

lemma buildDataSet_positions:
  assumes "\<not> gridRows imageData * gridColumns imageData < of_nat DATA_SET_SIZE"
    and "n = length (gridCells (gridRows imageData) (gridColumns imageData))"
    and "549 \<le> n"
  shows "\<exists>dataSet. buildDataSet d imageData = Inr dataSet \<and>
      map (\<lambda>dm. Some (matrix dm)) (trainingSet dataSet) =
        filter (\<lambda>x. x \<noteq> None) (map (subImageAt imageData) [1..<550]) \<and>
      map (\<lambda>dm. Some (matrix dm)) (testingSet dataSet) =
        filter (\<lambda>x. x \<noteq> None) (map (subImageAt imageData) [550..<Suc n]) \<and>
      (\<forall>dm\<in>set (trainingSet dataSet @ testingSet dataSet). digit dm = d)"
proof -
  let ?cells = "gridCells (gridRows imageData) (gridColumns imageData)"
  let ?columns = "gridColumns imageData"
  let ?ds = "\<lparr>trainingSet = acceptedCells d ?columns (data imageData) (take 549 ?cells),
       testingSet = acceptedCells d ?columns (data imageData) (drop 549 ?cells)\<rparr>"
  have build: "buildDataSet d imageData = Inr ?ds"
    using assms(1)
    by (simp add: buildDataSet_cells gridRows_def gridColumns_def Let_def TRAINING_SET_SIZE_def)
  have tk: "take 549 ?cells = map (\<lambda>p. ?cells ! (p - 1)) [1..<550]"
    using take_nths [of 549 ?cells] assms(2,3) by simp
  have dr: "drop 549 ?cells = map (\<lambda>p. ?cells ! (p - 1)) [550..<Suc n]"
    using drop_nths [of 549 ?cells] assms(2) by simp
  have 1: "map (\<lambda>dm. Some (matrix dm)) (trainingSet ?ds) =
        filter (\<lambda>x. x \<noteq> None) (map (subImageAt imageData) [1..<550])"
    by (simp add: matrices_acceptedCells tk subImageAt_def [abs_def] cellAt_def comp_def)
  have 2: "map (\<lambda>dm. Some (matrix dm)) (testingSet ?ds) =
        filter (\<lambda>x. x \<noteq> None) (map (subImageAt imageData) [550..<Suc n])"
    by (simp add: matrices_acceptedCells dr subImageAt_def [abs_def] cellAt_def comp_def)
  have 3: "\<forall>dm\<in>set (trainingSet ?ds @ testingSet ?ds). digit dm = d"
    by (auto dest: digit_acceptedCells)
  from build 1 2 3 show ?thesis by blast
qed

lemma grid_dims:
  assumes "width imageData = IMAGE_SIZE * r" "height imageData = IMAGE_SIZE * c"
  shows "gridRows imageData = of_nat r" "gridColumns imageData = of_nat c"
    "length (gridCells (gridRows imageData) (gridColumns imageData)) = r * c"
proof -
  show 1: "gridRows imageData = of_nat r"
    by (simp add: gridRows_def assms IMAGE_SIZE_def)
  show 2: "gridColumns imageData = of_nat c"
    by (simp add: gridColumns_def assms IMAGE_SIZE_def)
  show "length (gridCells (gridRows imageData) (gridColumns imageData)) = r * c"
    by (simp add: 1 2 gridCells_def length_grid mult.commute)
qed

declare upt_rec_numeral [simp del]


lemma filter_map_all: "\<forall>x\<in>set xs. P (f x) \<Longrightarrow> filter P (map f xs) = map f xs"
  by (induction xs) auto

lemma number_1100: "\<not> (of_nat r :: number) * of_nat c < of_nat DATA_SET_SIZE" if "r * c = 1100"
proof -
  have "(of_nat r :: number) * of_nat c = of_nat (r * c)" by simp
  with that show ?thesis by (simp add: DATA_SET_SIZE_def)
qed


lemma all_accepted_split:
  assumes "width imageData = IMAGE_SIZE * r" and "height imageData = IMAGE_SIZE * c"
    and "r * c = 1100"
    and "\<forall>p\<in>{1..1100}. subImageAt imageData p \<noteq> None"
  shows "\<exists>dataSet. buildDataSet d imageData = Inr dataSet \<and>
      length (trainingSet dataSet) = 549 \<and> length (testingSet dataSet) = 551 \<and>
      map (\<lambda>dm. Some (matrix dm)) (trainingSet dataSet) = map (subImageAt imageData) [1..<550] \<and>
      map (\<lambda>dm. Some (matrix dm)) (testingSet dataSet) = map (subImageAt imageData) [550..<1101] \<and>
      (\<forall>dm\<in>set (trainingSet dataSet @ testingSet dataSet). digit dm = d)"
proof -
  note dims = grid_dims [OF assms(1,2)]
  have ok: "\<not> gridRows imageData * gridColumns imageData < of_nat DATA_SET_SIZE"
    unfolding dims(1,2) using assms(3) by (rule number_1100)
  have n: "1100 = length (gridCells (gridRows imageData) (gridColumns imageData))"
    by (simp add: dims(3) assms(3))
  from buildDataSet_positions [OF ok n, of d] obtain dataSet where
    ds: "buildDataSet d imageData = Inr dataSet"
      "map (\<lambda>dm. Some (matrix dm)) (trainingSet dataSet) =
        filter (\<lambda>x. x \<noteq> None) (map (subImageAt imageData) [1..<550])"
      "map (\<lambda>dm. Some (matrix dm)) (testingSet dataSet) =
        filter (\<lambda>x. x \<noteq> None) (map (subImageAt imageData) [550..<Suc 1100])"
      "\<forall>dm\<in>set (trainingSet dataSet @ testingSet dataSet). digit dm = d"
    by auto
  have tr: "map (\<lambda>dm. Some (matrix dm)) (trainingSet dataSet) = map (subImageAt imageData) [1..<550]"
    unfolding ds(2) using assms(4) by (intro filter_map_all) simp
  have te: "map (\<lambda>dm. Some (matrix dm)) (testingSet dataSet) = map (subImageAt imageData) [550..<1101]"
    unfolding ds(3) using assms(4) by (simp add: filter_map_all)
  have "length (map (\<lambda>dm. Some (matrix dm)) (trainingSet dataSet)) = 549"
    unfolding tr by simp
  then have ltr: "length (trainingSet dataSet) = 549" by simp
  have "length (map (\<lambda>dm. Some (matrix dm)) (testingSet dataSet)) = 551"
    unfolding te by simp
  then have lte: "length (testingSet dataSet) = 551" by simp
  from ds(1,4) tr te ltr lte show ?thesis by blast
qed


lemma cellAt_550_2:
  assumes "gridRows imageData = 550" "gridColumns imageData = 2" "1 \<le> p" "p \<le> 1100"
  shows "cellAt imageData p = ((p - 1) div 550, (p - 1) mod 550)"
proof -
  have "p - 1 < 2 * 550" using assms(3,4) by simp
  then have "grid 2 550 Pair ! (p - 1) = ((p - 1) div 550, (p - 1) mod 550)"
    by (rule nth_grid)
  then show ?thesis by (simp add: cellAt_def gridCells_def assms(1,2))
qed

lemma whiteImage_dims:
  "width whiteImage = IMAGE_SIZE * 550" "height whiteImage = IMAGE_SIZE * 2"
  "gridRows whiteImage = 550" "gridColumns whiteImage = 2"
  by (simp_all add: whiteImage_def IMAGE_SIZE_def gridRows_def gridColumns_def)

lemma whiteImage_subImageAt:
  assumes "1 \<le> p" "p \<le> 1100"
  shows "subImageAt whiteImage p \<noteq> None"
proof -
  have "(p - 1) mod 550 < 550" by simp
  moreover have "(p - 1) div 550 < 2" using assms by simp
  ultimately show ?thesis
    by (simp add: subImageAt_def cellAt_550_2 [OF whiteImage_dims(3,4) assms] whiteImage_dims(4)
        whiteImage_accepted del: of_nat_mult)
qed


text \<open>
  Claim C1. For every digit and every image of \<open>r\<close> by \<open>c\<close> cells with
  \<open>r * c = 1100\<close>, all of them accepted by \<open>subImage\<close>, \<open>buildDataSet\<close> returns a data
  set whose training set has 549 elements, the cells at the positions 1 to 549 in this
  order, and whose testing set has 551 elements, the cells at the positions 550 to 1100.
\<close>

theorem buildDataSet_all_accepted:
  assumes "width imageData = IMAGE_SIZE * r" and "height imageData = IMAGE_SIZE * c"
    and "r * c = 1100"
    and "\<forall>p\<in>{1..1100}. subImageAt imageData p \<noteq> None"
  shows "\<exists>dataSet. buildDataSet d imageData = Inr dataSet \<and>
      length (trainingSet dataSet) = 549 \<and> length (testingSet dataSet) = 551 \<and>
      map (\<lambda>dm. Some (matrix dm)) (trainingSet dataSet) = map (subImageAt imageData) [1..<550] \<and>
      map (\<lambda>dm. Some (matrix dm)) (testingSet dataSet) = map (subImageAt imageData) [550..<1101] \<and>
      (\<forall>dm\<in>set (trainingSet dataSet @ testingSet dataSet). digit dm = d)"
  using assms by (rule all_accepted_split)

theorem buildDataSet_all_accepted_witness:
  "\<exists>dataSet. buildDataSet 7 whiteImage = Inr dataSet \<and>
     length (trainingSet dataSet) = 549 \<and> length (testingSet dataSet) = 551"
proof -
  have "\<forall>p\<in>{1..1100}. subImageAt whiteImage p \<noteq> None"
    by (simp add: whiteImage_subImageAt)
  from buildDataSet_all_accepted [OF whiteImage_dims(1,2) _ this, of 7]
  show ?thesis by auto
qed

section \<open>The digit matrices of a data set\<close>

lemma set_gridCells:
  "set (gridCells rows columns) = {(ci, ri). ci < nat \<lceil>columns\<rceil> \<and> ri < nat \<lceil>rows\<rceil>}"
  by (auto simp: gridCells_def set_grid)

lemma cellMatrices_mem:
  assumes "dm \<in> set (cellMatrices d columns imageData (ci, ri))"
  shows "digit dm = d \<and>
    matrix dm = grid IMAGE_SIZE IMAGE_SIZE
      (cellEntry (of_nat (ri * IMAGE_SIZE)) (of_nat (ci * IMAGE_SIZE)) columns imageData) \<and>
    PIXEL_THRESHOLD \<le> sum_list (matrix dm)"
  using assms
  by (auto simp: cellMatrices_def subImage_grid split: option.splits if_splits)

lemma acceptedCells_mem:
  "dm \<in> set (acceptedCells d columns imageData cs) \<longleftrightarrow>
     (\<exists>c\<in>set cs. dm \<in> set (cellMatrices d columns imageData c))"
  by (auto simp: acceptedCells_def)

lemma grid_01: "(\<And>r c. f r c \<le> (1::nat)) \<Longrightarrow> set (grid m n f) \<subseteq> {0, 1}"
proof
  fix x
  assume a: "\<And>r c. f r c \<le> 1" and "x \<in> set (grid m n f)"
  then obtain r c where "x = f r c" by (auto simp: set_grid)
  with a [of r c] have "x = 0 \<or> x = 1" by linarith
  then show "x \<in> {0, 1}" by simp
qed


text \<open>
  Claim C4. Every digit matrix of a data set that \<open>buildDataSet\<close> returns carries the
  digit of the call and a matrix of 256 entries. The matrix is that of one cell
  \<open>(rowsIterator, columnsIterator)\<close> of the grid, row by row: the entry at
  \<open>row * 16 + column\<close> is 1 if the byte of the buffer at the offset of the first channel of
  the pixel is greater than 60, and 0 otherwise, also when the offset is no index of the
  buffer. At least 30 entries are 1.
\<close>

theorem buildDataSet_matrices:
  assumes "buildDataSet d imageData = Inr dataSet"
    and "dm \<in> set (trainingSet dataSet) \<union> set (testingSet dataSet)"
  shows "digit dm = d \<and> length (matrix dm) = 256 \<and>
    (\<exists>rowsIterator columnsIterator.
       of_nat rowsIterator < (of_nat (width imageData) / 16 :: number) \<and>
       of_nat columnsIterator < (of_nat (height imageData) / 16 :: number) \<and>
       (\<forall>row<16. \<forall>column<16.
          matrix dm ! (row * 16 + column) =
            (let globalX = of_nat row + of_nat rowsIterator * 16;
                 globalY = of_nat column + of_nat columnsIterator * 16;
                 byteOffset :: number =
                   ((globalY - 1) + globalX * (of_nat (height imageData) / 16 - 1) * 16) * 4
             in if of_int \<lfloor>byteOffset\<rfloor> = byteOffset \<and> 0 \<le> byteOffset \<and>
                   \<lfloor>byteOffset\<rfloor> < int (length (data imageData)) \<and>
                   60 < unat (data imageData ! nat \<lfloor>byteOffset\<rfloor>)
                then 1 else 0))) \<and>
    set (matrix dm) \<subseteq> {0, 1} \<and>
    30 \<le> length (filter (\<lambda>x. x = 1) (matrix dm))"
proof -
  let ?rows = "gridRows imageData" and ?columns = "gridColumns imageData"
  let ?cells = "gridCells ?rows ?columns"
  from assms(1) have ds: "dataSet =
      \<lparr>trainingSet = acceptedCells d ?columns (data imageData) (take (TRAINING_SET_SIZE - 1) ?cells),
       testingSet = acceptedCells d ?columns (data imageData) (drop (TRAINING_SET_SIZE - 1) ?cells)\<rparr>"
    by (simp add: buildDataSet_cells gridRows_def gridColumns_def Let_def split: if_splits)
  with assms(2) obtain c where c: "c \<in> set ?cells" "dm \<in> set (cellMatrices d ?columns (data imageData) c)"
    by (auto simp: acceptedCells_mem dest: in_set_takeD in_set_dropD)
  obtain ci ri where cr: "c = (ci, ri)" by (cases c)
  from c(1) cr have "of_nat ri < ?rows" "of_nat ci < ?columns"
    by (simp_all add: set_gridCells less_number_iff)
  then have less: "of_nat ri < (of_nat (width imageData) / 16 :: number)"
      "of_nat ci < (of_nat (height imageData) / 16 :: number)"
    by (simp_all add: gridRows_def gridColumns_def IMAGE_SIZE_def)
  let ?e = "cellEntry (of_nat (ri * IMAGE_SIZE)) (of_nat (ci * IMAGE_SIZE)) ?columns (data imageData)"
  from cellMatrices_mem [OF c(2) [unfolded cr]]
  have dm: "digit dm = d" "matrix dm = grid IMAGE_SIZE IMAGE_SIZE ?e"
      "PIXEL_THRESHOLD \<le> sum_list (matrix dm)"
    by blast+
  have len: "length (matrix dm) = 256"
    by (simp add: dm(2) length_grid IMAGE_SIZE_def)
  have "\<forall>row<IMAGE_SIZE. \<forall>column<IMAGE_SIZE.
      matrix dm ! (row * IMAGE_SIZE + column) = ?e row column"
    by (simp add: dm(2) nth_grid grid_index_less)
  then have entries: "\<forall>row<16. \<forall>column<16. matrix dm ! (row * 16 + column) = ?e row column"
    by (simp only: IMAGE_SIZE_def)
  have explicit: "?e row column =
      (let globalX = of_nat row + of_nat ri * 16;
           globalY = of_nat column + of_nat ci * 16;
           byteOffset :: number =
             ((globalY - 1) + globalX * (of_nat (height imageData) / 16 - 1) * 16) * 4
       in if of_int \<lfloor>byteOffset\<rfloor> = byteOffset \<and> 0 \<le> byteOffset \<and>
             \<lfloor>byteOffset\<rfloor> < int (length (data imageData)) \<and>
             60 < unat (data imageData ! nat \<lfloor>byteOffset\<rfloor>)
          then 1 else 0)" for row column
    by (simp only: cellEntry_explicit Let_def gridColumns_def IMAGE_SIZE_def of_nat_mult
        of_nat_numeral)
  have bits: "set (matrix dm) \<subseteq> {0, 1}"
    unfolding dm(2) by (rule grid_01) (rule cellEntry_le_1)
  then have "sum_list (matrix dm) = length (filter (\<lambda>x. x = 1) (matrix dm))"
    by (rule sum_list_01)
  with dm(3) have white: "30 \<le> length (filter (\<lambda>x. x = 1) (matrix dm))"
    by (simp add: PIXEL_THRESHOLD_def)
  from entries have "\<forall>row<16. \<forall>column<16.
          matrix dm ! (row * 16 + column) =
            (let globalX = of_nat row + of_nat ri * 16;
                 globalY = of_nat column + of_nat ci * 16;
                 byteOffset :: number =
                   ((globalY - 1) + globalX * (of_nat (height imageData) / 16 - 1) * 16) * 4
             in if of_int \<lfloor>byteOffset\<rfloor> = byteOffset \<and> 0 \<le> byteOffset \<and>
                   \<lfloor>byteOffset\<rfloor> < int (length (data imageData)) \<and>
                   60 < unat (data imageData ! nat \<lfloor>byteOffset\<rfloor>)
                then 1 else 0)"
    by (simp only: explicit)
  with less dm(1) len bits white show ?thesis by blast
qed

theorem buildDataSet_matrices_witness:
  "\<exists>dataSet dm. buildDataSet 7 whiteImage = Inr dataSet \<and> dm \<in> set (trainingSet dataSet) \<and>
     digit dm = 7 \<and> length (matrix dm) = 256 \<and> matrix dm ! 18 = 1 \<and>
     set (matrix dm) \<subseteq> {0, 1} \<and>
     30 \<le> length (filter (\<lambda>x. x = 1) (matrix dm))"
proof -
  have "\<forall>p\<in>{1..1100}. subImageAt whiteImage p \<noteq> None"
    by (simp add: whiteImage_subImageAt)
  from all_accepted_split [OF whiteImage_dims(1,2) _ this, of 7]
  obtain dataSet where ds: "buildDataSet 7 whiteImage = Inr dataSet"
      "length (trainingSet dataSet) = 549"
    by auto
  from ds(2) have "trainingSet dataSet \<noteq> []" by auto
  then have dm: "hd (trainingSet dataSet) \<in> set (trainingSet dataSet)" by simp
  then have mem: "hd (trainingSet dataSet) \<in> set (trainingSet dataSet) \<union> set (testingSet dataSet)"
    by simp
  let ?dm = "hd (trainingSet dataSet)"
  from buildDataSet_matrices [OF ds(1) mem] obtain ri ci where
    facts: "digit ?dm = 7" "length (matrix ?dm) = 256" "set (matrix ?dm) \<subseteq> {0, 1}"
      "30 \<le> length (filter (\<lambda>x. x = 1) (matrix ?dm))"
    and bounds: "of_nat ri < (of_nat (width whiteImage) / 16 :: number)"
      "of_nat ci < (of_nat (height whiteImage) / 16 :: number)"
    and entries: "\<forall>row<16. \<forall>column<16.
          matrix ?dm ! (row * 16 + column) =
            (let globalX = of_nat row + of_nat ri * 16;
                 globalY = of_nat column + of_nat ci * 16;
                 byteOffset :: number =
                   ((globalY - 1) + globalX * (of_nat (height whiteImage) / 16 - 1) * 16) * 4
             in if of_int \<lfloor>byteOffset\<rfloor> = byteOffset \<and> 0 \<le> byteOffset \<and>
                   \<lfloor>byteOffset\<rfloor> < int (length (data whiteImage)) \<and>
                   60 < unat (data whiteImage ! nat \<lfloor>byteOffset\<rfloor>)
                then 1 else (0::nat))"
    by blast
  from bounds have b: "ri < 550" "ci < 2"
    by (simp_all add: whiteImage_def less_number_iff)
  have h: "(of_nat (height whiteImage) / 16 :: number) = 2"
    by (simp add: whiteImage_def)
  have "matrix ?dm ! (1 * 16 + 2) =
      cellEntry (of_nat (ri * IMAGE_SIZE)) (of_nat (ci * IMAGE_SIZE)) 2 (data whiteImage) 1 2"
    using entries [rule_format, of 1 2]
    by (simp only: cellEntry_explicit Let_def IMAGE_SIZE_def of_nat_mult of_nat_numeral h)
  also have "\<dots> = 1"
    using b by (intro whiteImage_entry) (simp_all add: IMAGE_SIZE_def)
  finally have "matrix ?dm ! 18 = 1" by simp
  with facts ds(1) dm show ?thesis by blast
qed


section \<open>A rejected cell\<close>


lemma scratchedImage_dims:
  "width scratchedImage = IMAGE_SIZE * 550" "height scratchedImage = IMAGE_SIZE * 2"
  "gridRows scratchedImage = 550" "gridColumns scratchedImage = 2"
  by (simp_all add: scratchedImage_def IMAGE_SIZE_def gridRows_def gridColumns_def)

lemma scratchedImage_nth:
  "n < 1126400 \<Longrightarrow>
   data scratchedImage ! n = (if 2044 \<le> n \<and> n < 3004 then 0 else 255)"
  by (auto simp: scratchedImage_def nth_append)

lemma scratchedImage_length: "length (data scratchedImage) = 1126400"
  by (simp add: scratchedImage_def)

lemma scratchedImage_entry:
  assumes "ri < 550" "ci < 2" "row < IMAGE_SIZE" "column < IMAGE_SIZE"
    and "p = int column + 16 * int ci - 1 + 16 * (int row + 16 * int ri)"
  shows "cellEntry (of_nat (ri * IMAGE_SIZE)) (of_nat (ci * IMAGE_SIZE)) 2 (data scratchedImage)
           row column = (if 0 \<le> p \<and> (p < 511 \<or> 751 \<le> p) then 1 else 0)"
proof -
  have p: "p < 281600" using assms by (simp add: IMAGE_SIZE_def)
  have "cellEntry (of_nat (ri * IMAGE_SIZE)) (of_nat (ci * IMAGE_SIZE)) (of_nat 2)
      (data scratchedImage) row column =
      (if jsGreater (uint8Get (data scratchedImage) (of_int (4 * p))) RGB_THRESHOLD then 1 else 0)"
    unfolding cellEntry_int assms(5) by simp
  also have "\<dots> = (if 0 \<le> p \<and> (p < 511 \<or> 751 \<le> p) then 1 else 0)"
    unfolding uint8Get_of_int scratchedImage_length
  proof (cases "0 \<le> p")
    case True
    then have n: "nat (4 * p) < 1126400" using p by linarith
    have "(2044 \<le> nat (4 * p) \<and> nat (4 * p) < 3004) = (511 \<le> p \<and> p < 751)"
      using True by auto
    then show "(if jsGreater
          (if 0 \<le> 4 * p \<and> 4 * p < int 1126400 then Some (data scratchedImage ! nat (4 * p))
           else None)
          RGB_THRESHOLD
         then 1 else 0) = (if 0 \<le> p \<and> (p < 511 \<or> 751 \<le> p) then 1 else (0::nat))"
      using True p
      by (auto simp: scratchedImage_nth [OF n] jsGreater_def RGB_THRESHOLD_def)
  next
    case False
    then show "(if jsGreater
          (if 0 \<le> 4 * p \<and> 4 * p < int 1126400 then Some (data scratchedImage ! nat (4 * p))
           else None)
          RGB_THRESHOLD
         then 1 else 0) = (if 0 \<le> p \<and> (p < 511 \<or> 751 \<le> p) then 1 else (0::nat))"
      by (simp add: jsGreater_def)
  qed
  finally show ?thesis by simp
qed


lemma scratchedImage_white_row:
  assumes "ri < 550" "ci < 2" "row < IMAGE_SIZE"
    and "1 \<le> 16 * ci + 16 * (row + 16 * ri) \<and> 16 * ci + 16 * (row + 16 * ri) + 14 < 511 \<or>
         752 \<le> 16 * ci + 16 * (row + 16 * ri)"
  shows "\<forall>column<IMAGE_SIZE.
      cellEntry (of_nat (ri * IMAGE_SIZE)) (of_nat (ci * IMAGE_SIZE)) 2 (data scratchedImage)
        row column = 1"
proof (intro allI impI)
  fix column
  assume c: "column < IMAGE_SIZE"
  show "cellEntry (of_nat (ri * IMAGE_SIZE)) (of_nat (ci * IMAGE_SIZE)) 2 (data scratchedImage)
      row column = 1"
    unfolding scratchedImage_entry [OF assms(1,2,3) c refl]
    using assms(4) c by (auto simp: IMAGE_SIZE_def)
qed

lemma scratchedImage_accepted:
  assumes "ri < 550" "ci < 2" "(ci, ri) \<noteq> (0, 2)"
  shows "subImage (of_nat (ri * IMAGE_SIZE)) (of_nat (ci * IMAGE_SIZE)) IMAGE_SIZE 2
           (data scratchedImage) \<noteq> None"
proof (cases "ri \<le> 1")
  case True
  show ?thesis
  proof (rule two_rows_accepted [of 1 2])
    show "1 < IMAGE_SIZE" "2 < IMAGE_SIZE" "(1::nat) \<noteq> 2"
      by (simp_all add: IMAGE_SIZE_def)
    show "\<forall>column<IMAGE_SIZE. cellEntry (of_nat (ri * IMAGE_SIZE)) (of_nat (ci * IMAGE_SIZE)) 2
        (data scratchedImage) 1 column = 1"
      using assms True by (intro scratchedImage_white_row) (simp_all add: IMAGE_SIZE_def)
    show "\<forall>column<IMAGE_SIZE. cellEntry (of_nat (ri * IMAGE_SIZE)) (of_nat (ci * IMAGE_SIZE)) 2
        (data scratchedImage) 2 column = 1"
      using assms True by (intro scratchedImage_white_row) (simp_all add: IMAGE_SIZE_def)
  qed
next
  case False
  with assms have far: "3 \<le> ri \<or> ri = 2 \<and> ci = 1" by auto
  show ?thesis
  proof (rule two_rows_accepted [of 14 15])
    show "14 < IMAGE_SIZE" "15 < IMAGE_SIZE" "(14::nat) \<noteq> 15"
      by (simp_all add: IMAGE_SIZE_def)
    show "\<forall>column<IMAGE_SIZE. cellEntry (of_nat (ri * IMAGE_SIZE)) (of_nat (ci * IMAGE_SIZE)) 2
        (data scratchedImage) 14 column = 1"
      using assms far by (intro scratchedImage_white_row) (auto simp: IMAGE_SIZE_def)
    show "\<forall>column<IMAGE_SIZE. cellEntry (of_nat (ri * IMAGE_SIZE)) (of_nat (ci * IMAGE_SIZE)) 2
        (data scratchedImage) 15 column = 1"
      using assms far by (intro scratchedImage_white_row) (auto simp: IMAGE_SIZE_def)
  qed
qed

lemma scratchedImage_rejected:
  "subImage (of_nat (2 * IMAGE_SIZE)) (of_nat (0 * IMAGE_SIZE)) IMAGE_SIZE 2
     (data scratchedImage) = None"
proof (rule one_row_rejected, intro allI impI)
  fix row column :: nat
  assume rc: "row < 15" "column < IMAGE_SIZE"
  then have r: "row < IMAGE_SIZE" by (simp add: IMAGE_SIZE_def)
  have 2: "(2::nat) < 550" "(0::nat) < 2" by simp_all
  show "cellEntry (of_nat (2 * IMAGE_SIZE)) (of_nat (0 * IMAGE_SIZE)) 2 (data scratchedImage)
      row column = 0"
    unfolding scratchedImage_entry [OF 2 r rc(2) refl]
    using rc by (auto simp: IMAGE_SIZE_def)
qed

lemma scratchedImage_subImageAt:
  assumes "1 \<le> p" "p \<le> 1100"
  shows "subImageAt scratchedImage p = None \<longleftrightarrow> p = 3"
proof -
  note cell = cellAt_550_2 [OF scratchedImage_dims(3,4) assms]
  show ?thesis
  proof (cases "p = 3")
    case True
    with cell have c3: "cellAt scratchedImage 3 = (0, 2)" by simp
    have "subImageAt scratchedImage 3 = None"
      unfolding subImageAt_def c3 prod.case scratchedImage_dims(4)
      by (rule scratchedImage_rejected)
    with True show ?thesis by simp
  next
    case False
    have "(p - 1) mod 550 < 550" by simp
    moreover have "(p - 1) div 550 < 2" using assms by simp
    moreover have "((p - 1) div 550, (p - 1) mod 550) \<noteq> (0, 2)"
    proof
      assume "((p - 1) div 550, (p - 1) mod 550) = (0, 2)"
      then have "(p - 1) div 550 = 0" "(p - 1) mod 550 = 2" by simp_all
      then have "p - 1 = 2"
        using div_mult_mod_eq [of "p - 1" 550] by simp
      with False assms show False by simp
    qed
    ultimately have "subImage (of_nat ((p - 1) mod 550 * IMAGE_SIZE))
        (of_nat ((p - 1) div 550 * IMAGE_SIZE)) IMAGE_SIZE 2 (data scratchedImage) \<noteq> None"
      by (rule scratchedImage_accepted)
    then have "subImageAt scratchedImage p \<noteq> None"
      unfolding subImageAt_def cell prod.case scratchedImage_dims(4) .
    with False show ?thesis by simp
  qed
qed

lemma buildLoops_counter:
  "matrixCounter (buildLoops d rows columns pixels) = nat \<lceil>rows\<rceil> * nat \<lceil>columns\<rceil>"
  by (simp add: buildLoops_cells gridCells_def length_grid mult.commute)

lemma buildCell_rejected:
  "subImage (of_nat (ri * IMAGE_SIZE)) (of_nat (ci * IMAGE_SIZE)) IMAGE_SIZE columns pixels = None \<Longrightarrow>
   trainingMatrices (buildCell d columns pixels ci ri st) = trainingMatrices st \<and>
   testingMatrices (buildCell d columns pixels ci ri st) = testingMatrices st"
  by (simp add: buildCell_def)

lemma buildDataSet_third_rejected:
  assumes "width imageData = IMAGE_SIZE * r" and "height imageData = IMAGE_SIZE * c"
    and "r * c = 1100"
    and "subImageAt imageData 3 = None"
    and "\<forall>p\<in>{1..1100}. p \<noteq> 3 \<longrightarrow> subImageAt imageData p \<noteq> None"
  shows "\<exists>dataSet. buildDataSet d imageData = Inr dataSet \<and>
      length (trainingSet dataSet) = 548 \<and> length (testingSet dataSet) = 551 \<and>
      length (trainingSet dataSet) + length (testingSet dataSet) = 1099 \<and>
      map (\<lambda>dm. Some (matrix dm)) (trainingSet dataSet) =
        map (subImageAt imageData) ([1..<3] @ [4..<550]) \<and>
      map (\<lambda>dm. Some (matrix dm)) (testingSet dataSet) = map (subImageAt imageData) [550..<1101]"
proof -
  note dims = grid_dims [OF assms(1,2)]
  have ok: "\<not> gridRows imageData * gridColumns imageData < of_nat DATA_SET_SIZE"
    unfolding dims(1,2) using assms(3) by (rule number_1100)
  have n: "1100 = length (gridCells (gridRows imageData) (gridColumns imageData))"
    by (simp add: dims(3) assms(3))
  from buildDataSet_positions [OF ok n, of d] obtain dataSet where
    ds: "buildDataSet d imageData = Inr dataSet"
      "map (\<lambda>dm. Some (matrix dm)) (trainingSet dataSet) =
        filter (\<lambda>x. x \<noteq> None) (map (subImageAt imageData) [1..<550])"
      "map (\<lambda>dm. Some (matrix dm)) (testingSet dataSet) =
        filter (\<lambda>x. x \<noteq> None) (map (subImageAt imageData) [550..<Suc 1100])"
    by auto
  have "[1..<550] = [1..<3] @ [3..<550]"
    using upt_add_eq_append [of 1 3 547] by simp
  also have "[3..<550] = 3 # [4..<550]"
    using upt_conv_Cons [of 3 550] by simp
  finally have split: "[1..<550] = [1..<3] @ 3 # [4..<550]" .
  have a: "filter (\<lambda>x. x \<noteq> None) (map (subImageAt imageData) [1..<3]) =
      map (subImageAt imageData) [1..<3]"
    using assms(5) by (intro filter_map_all) simp
  have b: "filter (\<lambda>x. x \<noteq> None) (map (subImageAt imageData) [4..<550]) =
      map (subImageAt imageData) [4..<550]"
    using assms(5) by (intro filter_map_all) simp
  have "filter (\<lambda>x. x \<noteq> None) (map (subImageAt imageData) ([1..<3] @ 3 # [4..<550])) =
      filter (\<lambda>x. x \<noteq> None) (map (subImageAt imageData) [1..<3]) @
      filter (\<lambda>x. x \<noteq> None) (map (subImageAt imageData) [4..<550])"
    by (simp add: assms(4))
  then have tr: "map (\<lambda>dm. Some (matrix dm)) (trainingSet dataSet) =
      map (subImageAt imageData) ([1..<3] @ [4..<550])"
    unfolding ds(2) split a b by simp
  have te: "map (\<lambda>dm. Some (matrix dm)) (testingSet dataSet) = map (subImageAt imageData) [550..<1101]"
    unfolding ds(3) using assms(5) by (simp add: filter_map_all)
  have "length (map (\<lambda>dm. Some (matrix dm)) (trainingSet dataSet)) = 548"
    unfolding tr by simp
  then have ltr: "length (trainingSet dataSet) = 548" by simp
  have "length (map (\<lambda>dm. Some (matrix dm)) (testingSet dataSet)) = 551"
    unfolding te by simp
  then have lte: "length (testingSet dataSet) = 551" by simp
  from ltr lte have "length (trainingSet dataSet) + length (testingSet dataSet) = 1099" by simp
  with ds(1) tr te ltr lte show ?thesis by blast
qed


text \<open>
  Claim C2. The counter \<open>matrixCounter\<close> goes up by one for every cell, whether
  \<open>subImage\<close> accepts the cell or not, so that it ends at the number of cells
  enumerated; a cell that \<open>subImage\<close> rejects is added to neither subset. For an image
  of 1100 cells of which only the cell at position 3 is rejected, the training set has
  548 elements (the positions 1, 2 and 4 to 549), the testing set has 551 elements (the
  positions 550 to 1100), and 1099 cells are accepted in all.
\<close>

theorem buildDataSet_position_counter:
  "matrixCounter (buildCell d columns pixels columnsIterator rowsIterator st) = matrixCounter st + 1 \<and>
   (subImage (of_nat (rowsIterator * IMAGE_SIZE)) (of_nat (columnsIterator * IMAGE_SIZE))
       IMAGE_SIZE columns pixels = None \<longrightarrow>
      trainingMatrices (buildCell d columns pixels columnsIterator rowsIterator st) =
        trainingMatrices st \<and>
      testingMatrices (buildCell d columns pixels columnsIterator rowsIterator st) =
        testingMatrices st) \<and>
   matrixCounter (buildLoops d rows columns pixels) = nat \<lceil>rows\<rceil> * nat \<lceil>columns\<rceil> \<and>
   (width imageData = IMAGE_SIZE * r \<and> height imageData = IMAGE_SIZE * c \<and> r * c = 1100 \<and>
    subImageAt imageData 3 = None \<and> (\<forall>p\<in>{1..1100}. p \<noteq> 3 \<longrightarrow> subImageAt imageData p \<noteq> None) \<longrightarrow>
      (\<exists>dataSet. buildDataSet d imageData = Inr dataSet \<and>
         length (trainingSet dataSet) = 548 \<and> length (testingSet dataSet) = 551 \<and>
         length (trainingSet dataSet) + length (testingSet dataSet) = 1099 \<and>
         map (\<lambda>dm. Some (matrix dm)) (trainingSet dataSet) =
           map (subImageAt imageData) ([1..<3] @ [4..<550]) \<and>
         map (\<lambda>dm. Some (matrix dm)) (testingSet dataSet) =
           map (subImageAt imageData) [550..<1101]))"
  using buildCell_counter [of d columns pixels columnsIterator rowsIterator st]
    buildCell_rejected [of rowsIterator columnsIterator columns pixels d st]
    buildLoops_counter [of d rows columns pixels]
    buildDataSet_third_rejected [of imageData r c d]
  by blast

theorem buildDataSet_position_counter_witness:
  "subImageAt scratchedImage 3 = None \<and>
   (\<exists>dataSet. buildDataSet 7 scratchedImage = Inr dataSet \<and>
      length (trainingSet dataSet) = 548 \<and> length (testingSet dataSet) = 551 \<and>
      length (trainingSet dataSet) + length (testingSet dataSet) = 1099)"
proof -
  have 1: "subImageAt scratchedImage 3 = None"
    by (simp add: scratchedImage_subImageAt)
  have 2: "\<forall>p\<in>{1..1100}. p \<noteq> 3 \<longrightarrow> subImageAt scratchedImage p \<noteq> None"
    by (simp add: scratchedImage_subImageAt)
  have "width scratchedImage = IMAGE_SIZE * 550 \<and> height scratchedImage = IMAGE_SIZE * 2 \<and>
      (550::nat) * 2 = 1100 \<and> subImageAt scratchedImage 3 = None \<and>
      (\<forall>p\<in>{1..1100}. p \<noteq> 3 \<longrightarrow> subImageAt scratchedImage p \<noteq> None) \<longrightarrow>
      (\<exists>dataSet. buildDataSet 7 scratchedImage = Inr dataSet \<and>
         length (trainingSet dataSet) = 548 \<and> length (testingSet dataSet) = 551 \<and>
         length (trainingSet dataSet) + length (testingSet dataSet) = 1099 \<and>
         map (\<lambda>dm. Some (matrix dm)) (trainingSet dataSet) =
           map (subImageAt scratchedImage) ([1..<3] @ [4..<550]) \<and>
         map (\<lambda>dm. Some (matrix dm)) (testingSet dataSet) =
           map (subImageAt scratchedImage) [550..<1101])"
    using buildDataSet_position_counter [where d = 7 and imageData = scratchedImage and r = 550
        and c = 2 and columns = 2 and pixels = "[]" and columnsIterator = 0 and rowsIterator = 0
        and rows = 550 and st = "\<lparr>trainingMatrices = [], testingMatrices = [], matrixCounter = 0\<rparr>"]
    by blast
  with scratchedImage_dims(1,2) 1 2 show ?thesis by auto
qed

section \<open>subImage is total\<close>

text \<open>
  Claim C10 says that \<open>subImage\<close> always returns a matrix. For a cell with fewer than
  \<open>PIXEL_THRESHOLD\<close> white pixels it returns \<open>undefined\<close>: so for the cell at position
  3 of \<open>scratchedImage\<close>.
\<close>

theorem subImage_sparse_cell_undefined:
  "subImage (of_nat (2 * IMAGE_SIZE)) (of_nat (0 * IMAGE_SIZE)) IMAGE_SIZE 2
     (data scratchedImage) = None"
  by (rule scratchedImage_rejected)

text \<open>
  Claim C10, amended. The reads of \<open>subImage\<close> never fail, although the index leaves
  the buffer: for the first cell, the pixel \<open>(0, 0)\<close> has the index \<open>-1\<close> and the byte
  offset \<open>-4\<close>, where the buffer has no element; a read outside the buffer gives
  \<open>undefined\<close>, which is not greater than the threshold, and the entry is 0. For every
  buffer and every cell, the loops of \<open>subImage\<close> end with a matrix of \<open>size * size\<close>
  entries, each 0 or 1: the entry of a pixel is 1 exactly when its byte offset is an index
  of the buffer and the byte there is greater than 60. \<open>subImage\<close> returns
  \<open>undefined\<close> when fewer than 30 entries of this matrix are 1, and this matrix
  otherwise.
\<close>

theorem subImage_total:
  "coordinatesToIndex (of_nat 0 + of_nat (0 * IMAGE_SIZE)) (of_nat 0 + of_nat (0 * IMAGE_SIZE))
      (columns - 1) = - 1 \<and>
   uint8Get imageData (- 1 * 4) = None \<and>
   (row < n \<and> column < n \<and>
    uint8Get imageData
      (coordinatesToIndex (of_nat row + startX) (of_nat column + startY) (columns - 1) * 4) = None \<longrightarrow>
      subImageArray (subImageLoops startX startY n columns imageData) ! (row * n + column) = 0) \<and>
   (row < n \<and> column < n \<longrightarrow>
      subImageArray (subImageLoops startX startY n columns imageData) ! (row * n + column) =
        (let byteOffset =
           ((of_nat column + startY) - 1 + (of_nat row + startX) * (columns - 1) * 16) * 4
         in if of_int \<lfloor>byteOffset\<rfloor> = byteOffset \<and> 0 \<le> byteOffset \<and>
               \<lfloor>byteOffset\<rfloor> < int (length imageData) \<and>
               60 < unat (imageData ! nat \<lfloor>byteOffset\<rfloor>)
            then 1 else 0)) \<and>
   length (subImageArray (subImageLoops startX startY n columns imageData)) = n * n \<and>
   set (subImageArray (subImageLoops startX startY n columns imageData)) \<subseteq> {0, 1} \<and>
   subImage startX startY n columns imageData =
     (if length (filter (\<lambda>x. x = 1)
            (subImageArray (subImageLoops startX startY n columns imageData))) < 30
      then None
      else Some (subImageArray (subImageLoops startX startY n columns imageData)))"
proof -
  have 1: "coordinatesToIndex (of_nat 0 + of_nat (0 * IMAGE_SIZE))
      (of_nat 0 + of_nat (0 * IMAGE_SIZE)) (columns - 1) = - 1"
    by (simp add: coordinatesToIndex_def)
  have 2: "uint8Get imageData (- 1 * 4) = None"
    by (simp add: uint8Get_def)
  have 3: "row < n \<and> column < n \<and>
    uint8Get imageData
      (coordinatesToIndex (of_nat row + startX) (of_nat column + startY) (columns - 1) * 4) = None \<longrightarrow>
      subImageArray (subImageLoops startX startY n columns imageData) ! (row * n + column) = 0"
    by (simp add: nth_subImageArray cellEntry_def jsGreater_def)
  have 4: "row < n \<and> column < n \<longrightarrow>
      subImageArray (subImageLoops startX startY n columns imageData) ! (row * n + column) =
        (let byteOffset =
           ((of_nat column + startY) - 1 + (of_nat row + startX) * (columns - 1) * 16) * 4
         in if of_int \<lfloor>byteOffset\<rfloor> = byteOffset \<and> 0 \<le> byteOffset \<and>
               \<lfloor>byteOffset\<rfloor> < int (length imageData) \<and>
               60 < unat (imageData ! nat \<lfloor>byteOffset\<rfloor>)
            then 1 else 0)"
  proof (intro impI, elim conjE)
    assume "row < n" "column < n"
    then have "subImageArray (subImageLoops startX startY n columns imageData) ! (row * n + column) =
        cellEntry startX startY columns imageData row column"
      by (rule nth_subImageArray)
    then show "subImageArray (subImageLoops startX startY n columns imageData) ! (row * n + column) =
        (let byteOffset =
           ((of_nat column + startY) - 1 + (of_nat row + startX) * (columns - 1) * 16) * 4
         in if of_int \<lfloor>byteOffset\<rfloor> = byteOffset \<and> 0 \<le> byteOffset \<and>
               \<lfloor>byteOffset\<rfloor> < int (length imageData) \<and>
               60 < unat (imageData ! nat \<lfloor>byteOffset\<rfloor>)
            then 1 else 0)"
      by (simp only: cellEntry_explicit)
  qed
  have 5: "length (subImageArray (subImageLoops startX startY n columns imageData)) = n * n"
    by (simp add: subImageLoops_grid length_grid)
  from 1 2 3 4 5 set_subImageArray [of startX startY n columns imageData]
    subImage_exact [of startX startY n columns imageData]
  show ?thesis by (simp only: simp_thms)
qed

theorem subImage_total_witness:
  "uint8Get (data whiteImage) (coordinatesToIndex (of_nat 0 + 0) (of_nat 0 + 0) (2 - 1) * 4) = None \<and>
   subImageArray (subImageLoops 0 0 IMAGE_SIZE 2 (data whiteImage)) ! (0 * IMAGE_SIZE + 0) = 0 \<and>
   subImageArray (subImageLoops 0 0 IMAGE_SIZE 2 (data whiteImage)) ! (1 * IMAGE_SIZE + 2) = 1"
  using subImage_total [where columns = 2 and imageData = "data whiteImage" and row = 0
      and n = IMAGE_SIZE and column = 0 and startX = 0 and startY = 0]
    subImage_total [where columns = 2 and imageData = "data whiteImage" and row = 1
      and n = IMAGE_SIZE and column = 2 and startX = 0 and startY = 0]
  by (simp add: coordinatesToIndex_def uint8Get_def IMAGE_SIZE_def whiteImage_def)


end
